theory Spec2Isabelle
  imports Complex_Main "HOL-Library.Word" "HOL-Library.Sublist" "HOL-Library.List_Lexorder"
begin

section \<open>The host language\<close>

subsection \<open>Strings\<close>

text \<open>
  A JavaScript string is a sequence of 16-bit code units; \<open>length\<close>, \<open>trim\<close>,
  \<open>split\<close> and the regular expressions of the program all work on code units.
  \<open>js\<close> embeds an ASCII literal.
\<close>

type_synonym codeunit = "16 word"
type_synonym jsstring = "codeunit list"

definition js :: "string \<Rightarrow> jsstring" where
  "js s = map of_char s"

text \<open>
  The white space of \<open>String.prototype.trim\<close>, of the class \<open>\s\<close> and of
  \<open>parseInt\<close>: the WhiteSpace and LineTerminator code points of ECMAScript.
\<close>

definition isWhiteSpace :: "codeunit \<Rightarrow> bool" where
  "isWhiteSpace c =
     (c = 0x9 \<or> c = 0xA \<or> c = 0xB \<or> c = 0xC \<or> c = 0xD \<or> c = 0x20 \<or> c = 0xA0 \<or>
      c = 0x1680 \<or> (0x2000 \<le> c \<and> c \<le> 0x200A) \<or> c = 0x2028 \<or> c = 0x2029 \<or>
      c = 0x202F \<or> c = 0x205F \<or> c = 0x3000 \<or> c = 0xFEFF)"

definition trim :: "jsstring \<Rightarrow> jsstring" where
  "trim s = rev (dropWhile isWhiteSpace (rev (dropWhile isWhiteSpace s)))"

text \<open>\<open>s.split(sep)\<close> for a separator of one code unit: never an empty array.\<close>

fun splitOn :: "codeunit \<Rightarrow> jsstring \<Rightarrow> jsstring list" where
  "splitOn sep [] = [[]]"
| "splitOn sep (c # cs) =
     (if c = sep then [] # splitOn sep cs
      else (case splitOn sep cs of
              [] \<Rightarrow> [[c]]
            | p # ps \<Rightarrow> (c # p) # ps))"

text \<open>\<open>a[i]\<close> on an array: \<open>undefined\<close> (here \<open>None\<close>) out of range.\<close>

definition elemAt :: "'a list \<Rightarrow> nat \<Rightarrow> 'a option" where
  "elemAt xs i = (if i < length xs then Some (xs ! i) else None)"

definition endsWith :: "jsstring \<Rightarrow> jsstring \<Rightarrow> bool" where
  "endsWith s t = suffix t s"

definition startsWith :: "string \<Rightarrow> string \<Rightarrow> bool" where
  "startsWith s t = prefix t s"

subsection \<open>Numbers\<close>

text \<open>
  A Number is NaN, an infinity or a finite double; a finite double is modelled by the
  real number it denotes, so that \<open><\<close> and \<open>>\<close> on doubles are the comparisons of
  these reals. Every comparison with NaN is false.
\<close>

datatype jsnum = NaN | PosInf | NegInf | Fin real

fun js_lt :: "jsnum \<Rightarrow> jsnum \<Rightarrow> bool" where
  "js_lt (Fin a) (Fin b) = (a < b)"
| "js_lt (Fin a) PosInf = True"
| "js_lt NegInf (Fin b) = True"
| "js_lt NegInf PosInf = True"
| "js_lt _ _ = False"

definition js_gt :: "jsnum \<Rightarrow> jsnum \<Rightarrow> bool" where
  "js_gt a b = js_lt b a"

text \<open>
  \<open>a - b\<close> and \<open>Math.abs\<close>. On finite values the difference is the exact one, which
  is what the host computes on the integers below \<open>2^53\<close> the program subtracts.
\<close>

fun js_sub :: "jsnum \<Rightarrow> jsnum \<Rightarrow> jsnum" where
  "js_sub (Fin a) (Fin b) = Fin (a - b)"
| "js_sub NaN _ = NaN"
| "js_sub _ NaN = NaN"
| "js_sub PosInf PosInf = NaN"
| "js_sub NegInf NegInf = NaN"
| "js_sub PosInf _ = PosInf"
| "js_sub NegInf _ = NegInf"
| "js_sub (Fin a) PosInf = NegInf"
| "js_sub (Fin a) NegInf = PosInf"

fun math_abs :: "jsnum \<Rightarrow> jsnum" where
  "math_abs NaN = NaN"
| "math_abs PosInf = PosInf"
| "math_abs NegInf = PosInf"
| "math_abs (Fin a) = Fin \<bar>a\<bar>"

text \<open>\<open>Math.round\<close>: the nearest integer, a half rounded towards plus infinity.\<close>

fun math_round :: "jsnum \<Rightarrow> jsnum" where
  "math_round (Fin a) = Fin (of_int \<lfloor>a + 1 / 2\<rfloor>)"
| "math_round n = n"

text \<open>
  \<open>parseInt(s, 10)\<close>: leading white space, an optional sign, then the longest run of
  decimal digits; NaN when there is no digit. The value is the integer the digits
  denote (the host rounds it to a double, which changes nothing below \<open>2^53\<close>).
\<close>

definition isDigit :: "codeunit \<Rightarrow> bool" where
  "isDigit c = (0x30 \<le> c \<and> c \<le> 0x39)"

definition digitsValue :: "jsstring \<Rightarrow> int" where
  "digitsValue ds = foldl (\<lambda>n c. 10 * n + (uint c - 48)) 0 ds"

definition parseDigits :: "jsstring \<Rightarrow> int option" where
  "parseDigits s =
     (let ds = takeWhile isDigit s in if ds = [] then None else Some (digitsValue ds))"

definition parseInt :: "jsstring \<Rightarrow> jsnum" where
  "parseInt s =
     (case dropWhile isWhiteSpace s of
        [] \<Rightarrow> NaN
      | c # cs \<Rightarrow>
          if c = 0x2D then
            (case parseDigits cs of None \<Rightarrow> NaN | Some n \<Rightarrow> Fin (- of_int n))
          else if c = 0x2B then
            (case parseDigits cs of None \<Rightarrow> NaN | Some n \<Rightarrow> Fin (of_int n))
          else
            (case parseDigits (c # cs) of None \<Rightarrow> NaN | Some n \<Rightarrow> Fin (of_int n)))"

subsection \<open>Values, exceptions and objects\<close>

text \<open>
  The values a caller can pass where the program expects a string. \<open>JSObject\<close>
  stands for any object or array.
\<close>

datatype jsval =
  JSUndefined | JSNull | JSBoolean bool | JSNumber jsnum | JSString jsstring | JSObject

fun truthy :: "jsval \<Rightarrow> bool" where
  "truthy JSUndefined = False"
| "truthy JSNull = False"
| "truthy (JSBoolean b) = b"
| "truthy (JSNumber n) = (n \<noteq> NaN \<and> n \<noteq> Fin 0)"
| "truthy (JSString s) = (s \<noteq> [])"
| "truthy JSObject = True"

fun typeof :: "jsval \<Rightarrow> string" where
  "typeof JSUndefined = ''undefined''"
| "typeof JSNull = ''object''"
| "typeof (JSBoolean b) = ''boolean''"
| "typeof (JSNumber n) = ''number''"
| "typeof (JSString s) = ''string''"
| "typeof JSObject = ''object''"

text \<open>
  The exceptions the program can meet: a \<open>TypeError\<close> of the language (a property
  read on \<open>undefined\<close>, a call of something that is no function), the
  \<open>InvalidCharacterError\<close> of \<open>classList.add\<close> for a token with white space, and
  the \<open>Error\<close> a failed retrieval rejects with, which carries its message.
\<close>

datatype exn = TypeError | InvalidCharacterError | Error string

text \<open>
  An object literal \<open>{}\<close> is a list of its own properties in insertion order. A read
  \<open>o[k]\<close> finds an own property first and then the properties every object inherits
  from \<open>Object.prototype\<close>, which are functions or objects, hence truthy.
\<close>

datatype 'a property = Own 'a | Inherited | Missing

definition objectPrototypeNames :: "jsstring list" where
  "objectPrototypeNames =
     [js ''constructor'', js ''hasOwnProperty'', js ''isPrototypeOf'',
      js ''propertyIsEnumerable'', js ''toLocaleString'', js ''toString'', js ''valueOf'',
      js ''__proto__'', js ''__defineGetter__'', js ''__defineSetter__'',
      js ''__lookupGetter__'', js ''__lookupSetter__'']"

definition objectGet :: "(jsstring \<times> 'a) list \<Rightarrow> jsstring \<Rightarrow> 'a property" where
  "objectGet obj k =
     (case map_of obj k of
        Some v \<Rightarrow> Own v
      | None \<Rightarrow> if k \<in> set objectPrototypeNames then Inherited else Missing)"

text \<open>
  \<open>Object.keys\<close> lists the own keys that are array indices (canonical decimal
  numerals below \<open>2^32 - 1\<close>) first, in ascending numeric order, and then the other
  keys in insertion order.
\<close>

definition isArrayIndex :: "jsstring \<Rightarrow> bool" where
  "isArrayIndex k =
     (k \<noteq> [] \<and> list_all isDigit k \<and> (k = [0x30] \<or> hd k \<noteq> 0x30) \<and>
      digitsValue k < 2 ^ 32 - 1)"

definition objectKeys :: "(jsstring \<times> 'a) list \<Rightarrow> jsstring list" where
  "objectKeys obj =
     sort_key digitsValue (filter isArrayIndex (map fst obj)) @
     filter (\<lambda>k. \<not> isArrayIndex k) (map fst obj)"

section \<open>Input validation (\<open>validateCityInput\<close> of the main module)\<close>

text \<open>
  The object the function returns; \<open>val\<close> is its property \<open>value\<close>, and \<open>error\<close>
  is \<open>None\<close> where the object has no such property.
\<close>

record validation =
  valid :: bool
  val :: jsstring
  error :: "string option"

text \<open>
  The pattern \<open>/^[a-zA-Z\u00C0-\u00FF\s\-'.,]+$/\<close>: one or more code units, each in
  the class.
\<close>

definition inClass :: "codeunit \<Rightarrow> bool" where
  "inClass c =
     ((0x61 \<le> c \<and> c \<le> 0x7A) \<or> (0x41 \<le> c \<and> c \<le> 0x5A) \<or> (0xC0 \<le> c \<and> c \<le> 0xFF) \<or>
      isWhiteSpace c \<or> c = 0x2D \<or> c = 0x27 \<or> c = 0x2E \<or> c = 0x2C)"

definition validPattern_test :: "jsstring \<Rightarrow> bool" where
  "validPattern_test s = (s \<noteq> [] \<and> list_all inClass s)"

definition validateCityInput :: "jsstring \<Rightarrow> validation" where
  "validateCityInput input =
     (let trimmed = trim input in
      if length trimmed = 0 then
        \<lparr>valid = False, val = [], error = Some ''Please enter a city name.''\<rparr>
      else if length trimmed < 2 then
        \<lparr>valid = False, val = trimmed,
         error = Some ''City name must be at least 2 characters.''\<rparr>
      else if length trimmed > 100 then
        \<lparr>valid = False, val = trimmed, error = Some ''City name is too long.''\<rparr>
      else if \<not> validPattern_test trimmed then
        \<lparr>valid = False, val = trimmed,
         error = Some ''City name can only contain letters, spaces, hyphens, and apostrophes.''\<rparr>
      else \<lparr>valid = True, val = trimmed, error = None\<rparr>)"

section \<open>The storage module (\<open>js/storage.js\<close>)\<close>

text \<open>
  What \<open>localStorage\<close> holds under \<open>STORAGE_KEY\<close>, by what \<open>getItem\<close> and
  \<open>JSON.parse\<close> make of it: nothing (no item, or the empty text, both falsy), a text
  that \<open>JSON.parse\<close> rejects, or the array of strings that this module wrote with
  \<open>JSON.stringify\<close> (other JSON values are outside the model). \<open>writable\<close> is false
  when the browser refuses a write (storage full or unavailable), where \<open>setItem\<close>
  throws.
\<close>

datatype item = Absent | Unparsable | Cities "jsstring list"

record storage =
  stored :: item
  writable :: bool

definition MAX_CITIES :: nat where
  "MAX_CITIES = 5"

definition getRecentCities :: "storage \<Rightarrow> jsstring list" where
  "getRecentCities st =
     (case stored st of
        Absent \<Rightarrow> []
      | Unparsable \<Rightarrow> []
      | Cities cs \<Rightarrow> cs)"

text \<open>
  \<open>toLowerCase\<close> is the host's mapping; it is a parameter of every function that
  calls it, so that the theorems hold whatever the mapping is.
\<close>

definition addRecentCity ::
  "(jsstring \<Rightarrow> jsstring) \<Rightarrow> jsval \<Rightarrow> storage \<Rightarrow> storage" where
  "addRecentCity toLowerCase city st =
     (if \<not> truthy city \<or> typeof city \<noteq> ''string'' then st
      else case city of
        JSString s \<Rightarrow>
          (let trimmed = trim s in
           if length trimmed = 0 then st
           else
             (let cities = getRecentCities st;
                  cities1 = filter (\<lambda>c. toLowerCase c \<noteq> toLowerCase trimmed) cities;
                  cities2 = trimmed # cities1;
                  cities3 = (if length cities2 > MAX_CITIES
                             then take MAX_CITIES cities2 else cities2)
              in if writable st then st\<lparr>stored := Cities cities3\<rparr> else st))
      | _ \<Rightarrow> st)"

text \<open>The lower-casing of ASCII strings, where the host maps \<open>A-Z\<close> to \<open>a-z\<close> only.\<close>

definition asciiLower :: "jsstring \<Rightarrow> jsstring" where
  "asciiLower s = map (\<lambda>c. if 0x41 \<le> c \<and> c \<le> 0x5A then c + 0x20 else c) s"

text \<open>No two entries equal under case-insensitive comparison.\<close>

definition ciDistinct :: "(jsstring \<Rightarrow> jsstring) \<Rightarrow> jsstring list \<Rightarrow> bool" where
  "ciDistinct toLowerCase cs = distinct (map toLowerCase cs)"

section \<open>The UI module\<close>

subsection \<open>The page\<close>

text \<open>
  The parts of the document the functions below write. The text of the alert banner
  is one of two templates around \<open>Math.round\<close> of the temperature. An overlay is the
  \<open>rain-overlay\<close> element with its raindrops or snowflakes (their random positions
  are not modelled). A toast shows a message: a text of the program, or the text the
  engine gives a \<open>TypeError\<close> or a DOM exception.
\<close>

datatype alertText = ExtremeHeatWarning jsnum | ExtremeColdWarning jsnum

datatype overlay = RainOverlay | SnowOverlay

datatype message = Message string | EngineMessage exn

text \<open>The fields of the current-weather response the program computes with.\<close>

record currentData =
  name :: jsstring
  weather_main :: jsstring
  weather_icon :: "jsstring option"
  main_temp :: jsnum
  main_feels_like :: jsnum

text \<open>
  An entry of the forecast response's \<open>list\<close>. \<open>dt_txt\<close> is \<open>None\<close> when the
  field is missing.
\<close>

record sample =
  dt :: int
  dt_txt :: "jsstring option"
  temp_min :: jsnum
  temp_max :: jsnum

text \<open>An element of \<open>dailyForecasts\<close>: \<open>{ ...midday, tempMin, tempMax }\<close>.\<close>

record daily =
  middayEntry :: sample
  tempMin :: jsnum
  tempMax :: jsnum

record page =
  bodyClasses :: "string list"
  overlays :: "overlay list"
  alertMessage :: "alertText option"
  alertHidden :: bool
  alertBackground :: string
  shownWeather :: "currentData option"
  currentTempCelsius :: "jsnum option"
  forecastCards :: "daily list"
  toasts :: "message list"
  loadingHidden :: bool
  recentList :: "jsstring list"
  recentDropdownHidden :: bool
  cityInput :: jsstring

subsection \<open>\<open>checkWeatherAlert\<close>\<close>

definition checkWeatherAlert :: "jsnum \<Rightarrow> page \<Rightarrow> page" where
  "checkWeatherAlert tempCelsius pg =
     (if js_gt tempCelsius (Fin 40) then
        pg\<lparr>alertMessage := Some (ExtremeHeatWarning (math_round tempCelsius)),
           alertHidden := False\<rparr>
      else if js_lt tempCelsius (Fin (- 20)) then
        pg\<lparr>alertMessage := Some (ExtremeColdWarning (math_round tempCelsius)),
           alertHidden := False,
           alertBackground := ''rgba(37, 99, 235, 0.95)''\<rparr>
      else pg\<lparr>alertHidden := True, alertBackground := []\<rparr>)"

text \<open>The alert a reader of the page sees.\<close>

datatype alertState = NoAlert | HeatExtreme | ColdExtreme

definition alertShown :: "page \<Rightarrow> alertState" where
  "alertShown pg =
     (if alertHidden pg then NoAlert
      else case alertMessage pg of
        None \<Rightarrow> NoAlert
      | Some (ExtremeHeatWarning t) \<Rightarrow> HeatExtreme
      | Some (ExtremeColdWarning t) \<Rightarrow> ColdExtreme)"

subsection \<open>\<open>updateBackground\<close>\<close>

definition classMap :: "bool \<Rightarrow> (jsstring \<times> string) list" where
  "classMap isNight =
     [(js ''clear'', if isNight then ''weather-clear-night'' else ''weather-clear''),
      (js ''clouds'', ''weather-clouds''),
      (js ''rain'', ''weather-rain''),
      (js ''drizzle'', ''weather-drizzle''),
      (js ''thunderstorm'', ''weather-thunderstorm''),
      (js ''snow'', ''weather-snow''),
      (js ''mist'', ''weather-mist''),
      (js ''fog'', ''weather-fog''),
      (js ''haze'', ''weather-haze''),
      (js ''smoke'', ''weather-smoke'')]"

definition createRainEffect :: "page \<Rightarrow> page" where
  "createRainEffect pg = pg\<lparr>overlays := overlays pg @ [RainOverlay]\<rparr>"

definition createSnowEffect :: "page \<Rightarrow> page" where
  "createSnowEffect pg = pg\<lparr>overlays := overlays pg @ [SnowOverlay]\<rparr>"

text \<open>
  \<open>classMap[conditionLower] || "weather-default"\<close> is the own class, the default
  when the key is missing, and an inherited function or object when the key names a
  property of \<open>Object.prototype\<close>. \<open>classList.add\<close> turns that into a text with
  white space in it and throws \<open>InvalidCharacterError\<close>; the overlays are not
  reached then.
\<close>

definition updateBackground ::
  "(jsstring \<Rightarrow> jsstring) \<Rightarrow> jsstring \<Rightarrow> jsstring option \<Rightarrow> page \<Rightarrow> exn option \<times> page" where
  "updateBackground toLowerCase condition icon pg =
     (let isNight = (case icon of None \<Rightarrow> False | Some i \<Rightarrow> i \<noteq> [] \<and> endsWith i (js ''n''));
          pg1 = pg\<lparr>bodyClasses := filter (\<lambda>cls. \<not> startsWith cls ''weather-'') (bodyClasses pg),
                   overlays := []\<rparr>;
          conditionLower = toLowerCase condition
      in case objectGet (classMap isNight) conditionLower of
           Inherited \<Rightarrow> (Some InvalidCharacterError, pg1)
         | found \<Rightarrow>
             (let weatherClass = (case found of Own c \<Rightarrow> c | _ \<Rightarrow> ''weather-default'');
                  pg2 = pg1\<lparr>bodyClasses :=
                          (if weatherClass \<in> set (bodyClasses pg1) then bodyClasses pg1
                           else bodyClasses pg1 @ [weatherClass])\<rparr>;
                  pg3 = (if conditionLower \<in> set [js ''rain'', js ''drizzle'', js ''thunderstorm'']
                         then createRainEffect pg2 else pg2);
                  pg4 = (if conditionLower = js ''snow'' then createSnowEffect pg3 else pg3)
              in (None, pg4)))"

text \<open>What the call has chosen: the theme class on the body and the particle effect.\<close>

datatype particleEffect = NoParticles | RainParticles | SnowParticles

definition themeKey :: "page \<Rightarrow> string list" where
  "themeKey pg = filter (\<lambda>cls. startsWith cls ''weather-'') (bodyClasses pg)"

definition particles :: "page \<Rightarrow> particleEffect option" where
  "particles pg =
     (case overlays pg of
        [] \<Rightarrow> Some NoParticles
      | [RainOverlay] \<Rightarrow> Some RainParticles
      | [SnowOverlay] \<Rightarrow> Some SnowParticles
      | _ \<Rightarrow> None)"

text \<open>
  The classification the page shows after the call, in the words of the table: the
  icon is a night icon when it ends in \<open>n\<close>; the theme of a key is its class in the
  table or the default class; the effect of a key is rain for rain, drizzle and
  thunderstorm, snow for snow, and none otherwise.
\<close>

definition nightIcon :: "jsstring option \<Rightarrow> bool" where
  "nightIcon icon = (case icon of None \<Rightarrow> False | Some i \<Rightarrow> endsWith i (js ''n''))"

definition themeOf :: "bool \<Rightarrow> jsstring \<Rightarrow> string" where
  "themeOf night k =
     (case map_of (classMap night) k of Some c \<Rightarrow> c | None \<Rightarrow> ''weather-default'')"

definition effectOf :: "jsstring \<Rightarrow> particleEffect" where
  "effectOf k =
     (if k = js ''rain'' \<or> k = js ''drizzle'' \<or> k = js ''thunderstorm'' then RainParticles
      else if k = js ''snow'' then SnowParticles
      else NoParticles)"

subsection \<open>\<open>renderCurrentWeather\<close>\<close>

text \<open>
  The text fields of the card are written from the response (\<open>shownWeather\<close>), then
  the background and the alert follow. An exception of \<open>updateBackground\<close> leaves
  through the function.
\<close>

definition renderCurrentWeather ::
  "(jsstring \<Rightarrow> jsstring) \<Rightarrow> currentData \<Rightarrow> page \<Rightarrow> exn option \<times> page" where
  "renderCurrentWeather toLowerCase data pg =
     (let pg1 = pg\<lparr>currentTempCelsius := Some (math_round (main_temp data)),
                   shownWeather := Some data\<rparr>
      in case updateBackground toLowerCase (weather_main data) (weather_icon data) pg1 of
           (Some x, pg2) \<Rightarrow> (Some x, pg2)
         | (None, pg2) \<Rightarrow> (None, checkWeatherAlert (main_temp data) pg2))"

subsection \<open>\<open>renderForecast\<close>\<close>

text \<open>
  The first loop groups the entries by \<open>entry.dt_txt.split(" ")[0]\<close> in the object
  \<open>dailyMap\<close>. A missing \<open>dt_txt\<close> is a \<open>TypeError\<close>, and so is a key that names a
  property of \<open>Object.prototype\<close> (the inherited value is truthy and has no
  \<open>push\<close>). \<open>split\<close> never returns an empty array (lemma \<open>splitOn_nonempty\<close>),
  so its element \<open>[0]\<close> is its head.
\<close>

definition dateKeyOf :: "jsstring \<Rightarrow> jsstring" where
  "dateKeyOf t = hd (splitOn 0x20 t)"

definition groupStep ::
  "(jsstring \<times> sample list) list \<Rightarrow> sample \<Rightarrow> exn + (jsstring \<times> sample list) list" where
  "groupStep dailyMap entry =
     (case dt_txt entry of
        None \<Rightarrow> Inl TypeError
      | Some t \<Rightarrow>
          (let dateKey = dateKeyOf t
           in case objectGet dailyMap dateKey of
                Missing \<Rightarrow> Inr (dailyMap @ [(dateKey, [entry])])
              | Own entries \<Rightarrow>
                  Inr (map (\<lambda>(k, v). if k = dateKey then (k, v @ [entry]) else (k, v)) dailyMap)
              | Inherited \<Rightarrow> Inl TypeError))"

fun groupEntries ::
  "(jsstring \<times> sample list) list \<Rightarrow> sample list \<Rightarrow> exn + (jsstring \<times> sample list) list" where
  "groupEntries dailyMap [] = Inr dailyMap"
| "groupEntries dailyMap (entry # rest) =
     (case groupStep dailyMap entry of
        Inl x \<Rightarrow> Inl x
      | Inr dailyMap' \<Rightarrow> groupEntries dailyMap' rest)"

text \<open>
  \<open>parseInt(e.dt_txt.split(" ")[1].split(":")[0], 10)\<close>: a \<open>TypeError\<close> when the
  text has no second part.
\<close>

definition hourOf :: "sample \<Rightarrow> exn + jsnum" where
  "hourOf e =
     (case dt_txt e of
        None \<Rightarrow> Inl TypeError
      | Some t \<Rightarrow>
          (case elemAt (splitOn 0x20 t) 1 of
             None \<Rightarrow> Inl TypeError
           | Some time \<Rightarrow> Inr (parseInt (hd (splitOn 0x3A time)))))"

text \<open>The loop for the reading closest to 12:00, on the pair \<open>(midday, minDiff)\<close>.\<close>

fun findMidday :: "sample \<times> jsnum \<Rightarrow> sample list \<Rightarrow> exn + sample \<times> jsnum" where
  "findMidday (midday, minDiff) [] = Inr (midday, minDiff)"
| "findMidday (midday, minDiff) (e # es) =
     (case hourOf e of
        Inl x \<Rightarrow> Inl x
      | Inr hour \<Rightarrow>
          (let diff = math_abs (js_sub hour (Fin 12))
           in if js_lt diff minDiff then findMidday (e, diff) es
              else findMidday (midday, minDiff) es))"

text \<open>The value \<open>diff\<close> of that loop for an entry (NaN where the hour cannot be read).\<close>

definition diffOf :: "sample \<Rightarrow> jsnum" where
  "diffOf e = (case hourOf e of Inl x \<Rightarrow> NaN | Inr hour \<Rightarrow> math_abs (js_sub hour (Fin 12)))"

text \<open>The loop for the daily extremes, on the pair \<open>(tempMin, tempMax)\<close>.\<close>

fun tempRange :: "jsnum \<times> jsnum \<Rightarrow> sample list \<Rightarrow> jsnum \<times> jsnum" where
  "tempRange (tMin, tMax) [] = (tMin, tMax)"
| "tempRange (tMin, tMax) (e # es) =
     tempRange (if js_lt (temp_min e) tMin then temp_min e else tMin,
                if js_gt (temp_max e) tMax then temp_max e else tMax) es"

text \<open>
  The body of the second loop for one key of \<open>Object.keys(dailyMap)\<close>: the two
  loops over the entries of the key and the object that is pushed. The array under an
  own key is never empty (lemma \<open>dayGroup_nonempty\<close>), so \<open>entries[0]\<close> is its head.
\<close>

definition daySummary :: "sample list \<Rightarrow> exn + daily" where
  "daySummary entries =
     (case findMidday (hd entries, PosInf) entries of
        Inl x \<Rightarrow> Inl x
      | Inr (m, minDiff) \<Rightarrow>
          (case tempRange (PosInf, NegInf) entries of
             (tMin, tMax) \<Rightarrow> Inr \<lparr>middayEntry = m, tempMin = tMin, tempMax = tMax\<rparr>))"

definition dayStep ::
  "jsstring \<Rightarrow> (jsstring \<times> sample list) list \<Rightarrow> daily list \<Rightarrow> jsstring \<Rightarrow> exn + daily list" where
  "dayStep todayKey dailyMap dailyForecasts dateKey =
     (if dateKey = todayKey then Inr dailyForecasts
      else if length dailyForecasts \<ge> 5 then Inr dailyForecasts
      else case objectGet dailyMap dateKey of
        Own entries \<Rightarrow>
          (case daySummary entries of
             Inl x \<Rightarrow> Inl x
           | Inr day \<Rightarrow> Inr (dailyForecasts @ [day]))
      | _ \<Rightarrow> Inl TypeError)"

fun processDays ::
  "jsstring \<Rightarrow> (jsstring \<times> sample list) list \<Rightarrow> daily list \<Rightarrow> jsstring list \<Rightarrow> exn + daily list"
  where
  "processDays todayKey dailyMap dailyForecasts [] = Inr dailyForecasts"
| "processDays todayKey dailyMap dailyForecasts (dateKey # rest) =
     (case dayStep todayKey dailyMap dailyForecasts dateKey of
        Inl x \<Rightarrow> Inl x
      | Inr dailyForecasts' \<Rightarrow> processDays todayKey dailyMap dailyForecasts' rest)"

text \<open>
  The array \<open>dailyForecasts\<close> of \<open>renderForecast\<close>. \<open>todayKey\<close> is
  \<open>new Date().toISOString().split("T")[0]\<close>, a reading of the clock.
\<close>

definition dailyForecastsOf :: "jsstring \<Rightarrow> sample list \<Rightarrow> exn + daily list" where
  "dailyForecastsOf todayKey entries =
     (case groupEntries [] entries of
        Inl x \<Rightarrow> Inl x
      | Inr dailyMap \<Rightarrow> processDays todayKey dailyMap [] (objectKeys dailyMap))"

text \<open>
  The container is emptied first; one card per element of \<open>dailyForecasts\<close> is
  appended at the end, in order. An exception of the loops leaves the container
  empty.
\<close>

definition renderForecast :: "jsstring \<Rightarrow> sample list \<Rightarrow> page \<Rightarrow> exn option \<times> page" where
  "renderForecast todayKey entries pg =
     (let pg1 = pg\<lparr>forecastCards := []\<rparr>
      in case dailyForecastsOf todayKey entries of
           Inl x \<Rightarrow> (Some x, pg1)
         | Inr dailyForecasts \<Rightarrow> (None, pg1\<lparr>forecastCards := dailyForecasts\<rparr>))"

subsection \<open>The days of a forecast, in the words of the specification\<close>

text \<open>
  The calendar date of a sample is the text of its timestamp before the first space.
  A sample is groupable when it has a timestamp, with a time part after the date, and
  its date is a key that \<open>dailyMap\<close> keeps in insertion order and does not inherit:
  no array index and no property of \<open>Object.prototype\<close>. Every timestamp of the
  provider's form \<open>YYYY-MM-DD HH:MM:SS\<close> is groupable (lemma
  \<open>provider_timestamp_groupable\<close>).
\<close>

definition dateOf :: "sample \<Rightarrow> jsstring" where
  "dateOf e = (case dt_txt e of None \<Rightarrow> [] | Some t \<Rightarrow> dateKeyOf t)"

definition groupable :: "sample \<Rightarrow> bool" where
  "groupable e =
     (case dt_txt e of
        None \<Rightarrow> False
      | Some t \<Rightarrow>
          elemAt (splitOn 0x20 t) 1 \<noteq> None \<and>
          dateKeyOf t \<notin> set objectPrototypeNames \<and>
          \<not> isArrayIndex (dateKeyOf t))"

text \<open>
  The hour of the day of a sample, when the hour field of its time part is one or two
  decimal digits, and its distance from 12.
\<close>

definition hourOfDay :: "sample \<Rightarrow> int option" where
  "hourOfDay e =
     (case dt_txt e of
        None \<Rightarrow> None
      | Some t \<Rightarrow>
          (case elemAt (splitOn 0x20 t) 1 of
             None \<Rightarrow> None
           | Some time \<Rightarrow>
               (let h = hd (splitOn 0x3A time)
                in if h \<noteq> [] \<and> length h \<le> 2 \<and> list_all isDigit h
                   then Some (digitsValue h) else None)))"

definition noonDistance :: "sample \<Rightarrow> int" where
  "noonDistance e = (case hourOfDay e of None \<Rightarrow> 0 | Some h \<Rightarrow> \<bar>h - 12\<bar>)"

text \<open>The dates of a list in the order of their first occurrence.\<close>

fun firsts :: "'a list \<Rightarrow> 'a list" where
  "firsts [] = []"
| "firsts (x # xs) = x # filter (\<lambda>y. y \<noteq> x) (firsts xs)"

text \<open>The day group of a date: the samples of that date, in input order.\<close>

definition dayGroup :: "sample list \<Rightarrow> jsstring \<Rightarrow> sample list" where
  "dayGroup entries k = filter (\<lambda>e. dateOf e = k) entries"

definition grouped :: "sample list \<Rightarrow> (jsstring \<times> sample list) list" where
  "grouped entries = map (\<lambda>k. (k, dayGroup entries k)) (firsts (map dateOf entries))"

subsection \<open>Toasts, the loading overlay, the recent cities\<close>

definition showError :: "message \<Rightarrow> page \<Rightarrow> page" where
  "showError m pg = pg\<lparr>toasts := toasts pg @ [m]\<rparr>"

definition showLoading :: "page \<Rightarrow> page" where
  "showLoading pg = pg\<lparr>loadingHidden := False\<rparr>"

definition hideLoading :: "page \<Rightarrow> page" where
  "hideLoading pg = pg\<lparr>loadingHidden := True\<rparr>"

definition renderRecentCities :: "jsstring list \<Rightarrow> page \<Rightarrow> page" where
  "renderRecentCities cities pg =
     (if length cities = 0 then pg\<lparr>recentList := [], recentDropdownHidden := True\<rparr>
      else pg\<lparr>recentList := cities\<rparr>)"

section \<open>The main module\<close>

text \<open>
  The state of the application: the page, the storage and the module's variable
  \<open>currentFeelsLikeCelsius\<close>.
\<close>

record app =
  dom :: page
  localStorage :: storage
  currentFeelsLikeCelsius :: "jsnum option"

text \<open>
  What the outside gives one lookup: how each of the two retrievals settles (a
  rejection carries the \<open>Error\<close> of \<open>fetchData\<close>), which of two rejections comes
  first, and the date of the clock.
\<close>

record lookupEnv =
  currentResult :: "exn + currentData"
  forecastResult :: "exn + sample list"
  forecastRejectsFirst :: bool
  clockDate :: jsstring

text \<open>
  \<open>Promise.all\<close> of the two retrievals: fulfilled with both values when both are,
  and rejected as soon as one of them is, with the reason of the first rejection.
\<close>

definition promiseAll :: "lookupEnv \<Rightarrow> exn + currentData \<times> sample list" where
  "promiseAll env =
     (case (currentResult env, forecastResult env) of
        (Inr c, Inr f) \<Rightarrow> Inr (c, f)
      | (Inl e, Inr f) \<Rightarrow> Inl e
      | (Inr c, Inl e) \<Rightarrow> Inl e
      | (Inl e1, Inl e2) \<Rightarrow> Inl (if forecastRejectsFirst env then e2 else e1))"

definition errorMessage :: "exn \<Rightarrow> message" where
  "errorMessage x = (case x of Error m \<Rightarrow> Message m | _ \<Rightarrow> EngineMessage x)"

definition refreshRecentCitiesDropdown :: "app \<Rightarrow> app" where
  "refreshRecentCitiesDropdown a =
     a\<lparr>dom := renderRecentCities (getRecentCities (localStorage a)) (dom a)\<rparr>"

text \<open>The \<open>try\<close> block of \<open>searchByCity\<close>: the exception that leaves it, and the state.\<close>

definition searchByCity_try ::
  "(jsstring \<Rightarrow> jsstring) \<Rightarrow> lookupEnv \<Rightarrow> app \<Rightarrow> exn option \<times> app" where
  "searchByCity_try toLowerCase env a =
     (case promiseAll env of
        Inl x \<Rightarrow> (Some x, a)
      | Inr (currentData, forecastData) \<Rightarrow>
          (let a1 = a\<lparr>currentFeelsLikeCelsius := Some (math_round (main_feels_like currentData))\<rparr>
           in case renderCurrentWeather toLowerCase currentData (dom a1) of
                (Some x, pg) \<Rightarrow> (Some x, a1\<lparr>dom := pg\<rparr>)
              | (None, pg) \<Rightarrow>
                  (case renderForecast (clockDate env) forecastData pg of
                     (Some x, pg') \<Rightarrow> (Some x, a1\<lparr>dom := pg'\<rparr>)
                   | (None, pg') \<Rightarrow>
                       (let a2 = a1\<lparr>dom := pg',
                                     localStorage :=
                                       addRecentCity toLowerCase (JSString (name currentData))
                                         (localStorage a1)\<rparr>;
                            a3 = refreshRecentCitiesDropdown a2
                        in (None, a3\<lparr>dom := (dom a3)\<lparr>cityInput := []\<rparr>\<rparr>)))))"

definition searchByCity ::
  "(jsstring \<Rightarrow> jsstring) \<Rightarrow> lookupEnv \<Rightarrow> jsstring \<Rightarrow> app \<Rightarrow> app" where
  "searchByCity toLowerCase env city a =
     (let validation = validateCityInput city
      in if \<not> valid validation then
           a\<lparr>dom := showError (case error validation of
                                 Some m \<Rightarrow> Message m
                               | None \<Rightarrow> Message ''undefined'') (dom a)\<rparr>
         else
           (let a1 = a\<lparr>dom := showLoading (dom a)\<rparr>;
                a2 = (case searchByCity_try toLowerCase env a1 of
                        (Some x, a') \<Rightarrow> a'\<lparr>dom := showError (errorMessage x) (dom a')\<rparr>
                      | (None, a') \<Rightarrow> a')
            in a2\<lparr>dom := hideLoading (dom a2)\<rparr>))"

section \<open>Concrete states\<close>

text \<open>A page before the first lookup, an empty storage, and the application on them.\<close>

definition page0 :: page where
  "page0 =
     \<lparr>bodyClasses = [''min-h-screen'', ''weather-default''], overlays = [],
      alertMessage = None, alertHidden = True, alertBackground = [],
      shownWeather = None, currentTempCelsius = None, forecastCards = [], toasts = [],
      loadingHidden = True, recentList = [], recentDropdownHidden = True,
      cityInput = js ''Paris''\<rparr>"

definition storage0 :: storage where
  "storage0 = \<lparr>stored = Absent, writable = True\<rparr>"

definition app0 :: app where
  "app0 = \<lparr>dom = page0, localStorage = storage0, currentFeelsLikeCelsius = None\<rparr>"

text \<open>A forecast entry with the given \<open>dt_txt\<close> and temperature bounds.\<close>

definition entry :: "string \<Rightarrow> real \<Rightarrow> real \<Rightarrow> sample" where
  "entry t lo hi = \<lparr>dt = 0, dt_txt = Some (js t), temp_min = Fin lo, temp_max = Fin hi\<rparr>"

text \<open>
  A lookup in which both retrievals fail with different errors, the forecast's
  rejection coming first.
\<close>

definition env1 :: lookupEnv where
  "env1 =
     \<lparr>currentResult = Inl (Error ''Network error. Please check your internet connection.''),
      forecastResult = Inl (Error ''Too many requests. Please wait a moment and try again.''),
      forecastRejectsFirst = True, clockDate = js ''2024-01-01''\<rparr>"

text \<open>
  A forecast of six days: the rest of today (1 January), a day with readings at 09:00,
  12:00 and 15:00, and four more days; the days \<open>renderForecast\<close> makes of it; and
  an entry without \<open>dt_txt\<close>.
\<close>

definition week :: "sample list" where
  "week =
     [entry ''2024-01-01 21:00:00'' 5 7,
      entry ''2024-01-02 09:00:00'' 10 20,
      entry ''2024-01-02 12:00:00'' 8 22,
      entry ''2024-01-02 15:00:00'' 12 19,
      entry ''2024-01-03 12:00:00'' 3 9,
      entry ''2024-01-04 12:00:00'' 4 8,
      entry ''2024-01-05 12:00:00'' 1 6,
      entry ''2024-01-06 12:00:00'' 0 5]"

definition weekForecast :: "daily list" where
  "weekForecast =
     [\<lparr>middayEntry = entry ''2024-01-02 12:00:00'' 8 22, tempMin = Fin 8, tempMax = Fin 22\<rparr>,
      \<lparr>middayEntry = entry ''2024-01-03 12:00:00'' 3 9, tempMin = Fin 3, tempMax = Fin 9\<rparr>,
      \<lparr>middayEntry = entry ''2024-01-04 12:00:00'' 4 8, tempMin = Fin 4, tempMax = Fin 8\<rparr>,
      \<lparr>middayEntry = entry ''2024-01-05 12:00:00'' 1 6, tempMin = Fin 1, tempMax = Fin 6\<rparr>,
      \<lparr>middayEntry = entry ''2024-01-06 12:00:00'' 0 5, tempMin = Fin 0, tempMax = Fin 5\<rparr>]"

definition noTimestamp :: sample where
  "noTimestamp = \<lparr>dt = 0, dt_txt = None, temp_min = Fin 1, temp_max = Fin 2\<rparr>"

section \<open>Input validation: what the code does\<close>

lemma validateCityInput_valid_iff:
  "valid (validateCityInput input) \<longleftrightarrow>
     2 \<le> length (trim input) \<and> length (trim input) \<le> 100 \<and> list_all inClass (trim input)"
  by (auto simp add: validateCityInput_def validPattern_test_def Let_def)

lemma validateCityInput_value:
  "valid (validateCityInput input) \<Longrightarrow> val (validateCityInput input) = trim input"
  by (auto simp add: validateCityInput_def Let_def split: if_splits)

lemma validateCityInput_empty:
  "trim input = [] \<Longrightarrow> error (validateCityInput input) = Some ''Please enter a city name.''"
  by (simp add: validateCityInput_def)

lemma validateCityInput_short:
  "length (trim input) = 1 \<Longrightarrow>
   error (validateCityInput input) = Some ''City name must be at least 2 characters.''"
  by (auto simp add: validateCityInput_def Let_def)

lemma validateCityInput_long:
  "length (trim input) > 100 \<Longrightarrow>
   error (validateCityInput input) = Some ''City name is too long.''"
  by (auto simp add: validateCityInput_def Let_def)

lemma digit_not_inClass: "isDigit c \<Longrightarrow> \<not> inClass c"
  by (auto simp add: isDigit_def inClass_def isWhiteSpace_def word_le_nat_alt)

lemma validateCityInput_digit:
  assumes "c \<in> set (trim input)" and "isDigit c"
  shows "\<not> valid (validateCityInput input)"
  using assms digit_not_inClass[of c]
  by (auto simp add: validateCityInput_valid_iff list_all_iff)

text \<open>
  Claim C5. \<open>validateCityInput\<close> trims the input and rejects an empty, a too short
  and a too long text; it is to reject every text with a character that is no
  letter, space, hyphen, apostrophe, period or comma, so every digit and symbol. The
  range from U+00C0 to U+00FF of the pattern holds the multiplication sign U+00D7 (and
  the division sign U+00F7), which are symbols: the text of the three code units
  \<open>a\<close>, U+00D7, \<open>b\<close> is accepted.
\<close>

theorem validateCityInput_accepts_multiplication_sign:
  "validateCityInput [0x61, 0xD7, 0x62] =
     \<lparr>valid = True, val = [0x61, 0xD7, 0x62], error = None\<rparr>"
  by (simp add: validateCityInput_def trim_def isWhiteSpace_def validPattern_test_def
      inClass_def)

section \<open>The alert: what the code does\<close>

lemma alertShown_checkWeatherAlert:
  "alertShown (checkWeatherAlert t pg) =
     (if js_gt t (Fin 40) then HeatExtreme
      else if js_lt t (Fin (- 20)) then ColdExtreme else NoAlert)"
  by (simp add: checkWeatherAlert_def alertShown_def)

text \<open>
  Claim C7. For every number, NaN and the infinities included, \<open>checkWeatherAlert\<close>
  shows the heat alert exactly when the temperature is above 40, the cold alert
  exactly when it is below -20, and no alert otherwise; 40, -20 and NaN give no
  alert. The function has no branch that throws.
\<close>

theorem checkWeatherAlert_thresholds:
  "(alertShown (checkWeatherAlert (Fin x) pg) = HeatExtreme \<longleftrightarrow> x > 40) \<and>
   (alertShown (checkWeatherAlert (Fin x) pg) = ColdExtreme \<longleftrightarrow> x < - 20) \<and>
   (alertShown (checkWeatherAlert (Fin x) pg) = NoAlert \<longleftrightarrow> - 20 \<le> x \<and> x \<le> 40) \<and>
   alertShown (checkWeatherAlert NaN pg) = NoAlert \<and>
   alertShown (checkWeatherAlert PosInf pg) = HeatExtreme \<and>
   alertShown (checkWeatherAlert NegInf pg) = ColdExtreme"
proof -
  have heat: "alertShown (checkWeatherAlert (Fin x) pg) = HeatExtreme \<longleftrightarrow> x > 40"
    by (simp add: alertShown_checkWeatherAlert js_gt_def)
  have cold: "alertShown (checkWeatherAlert (Fin x) pg) = ColdExtreme \<longleftrightarrow> x < - 20"
    by (simp add: alertShown_checkWeatherAlert js_gt_def)
  have none: "alertShown (checkWeatherAlert (Fin x) pg) = NoAlert \<longleftrightarrow> - 20 \<le> x \<and> x \<le> 40"
    by (auto simp add: alertShown_checkWeatherAlert js_gt_def)
  have nan: "alertShown (checkWeatherAlert NaN pg) = NoAlert"
    by (simp add: alertShown_checkWeatherAlert js_gt_def)
  have inf: "alertShown (checkWeatherAlert PosInf pg) = HeatExtreme"
    "alertShown (checkWeatherAlert NegInf pg) = ColdExtreme"
    by (simp_all add: alertShown_checkWeatherAlert js_gt_def)
  show ?thesis using heat cold none nan inf by (intro conjI)
qed

theorem checkWeatherAlert_thresholds_witness:
  "alertShown (checkWeatherAlert (Fin 41) page0) = HeatExtreme \<and>
   alertShown (checkWeatherAlert (Fin (- 21)) page0) = ColdExtreme \<and>
   alertShown (checkWeatherAlert (Fin 20) page0) = NoAlert \<and>
   alertShown (checkWeatherAlert (Fin 40) page0) = NoAlert \<and>
   alertShown (checkWeatherAlert (Fin (- 20)) page0) = NoAlert \<and>
   alertShown (checkWeatherAlert NaN page0) = NoAlert"
  using checkWeatherAlert_thresholds[of 41 page0] checkWeatherAlert_thresholds[of "- 21" page0]
    checkWeatherAlert_thresholds[of 20 page0] checkWeatherAlert_thresholds[of 40 page0]
    checkWeatherAlert_thresholds[of "- 20" page0]
  by simp

section \<open>The background: what the code does\<close>

lemma classMap_weather:
  "map_of (classMap night) k = Some c \<Longrightarrow> startsWith c ''weather-''"
  by (auto simp add: classMap_def startsWith_def split: if_splits)

lemma themeOf_weather: "startsWith (themeOf night k) ''weather-''"
  using classMap_weather[of night k]
  by (cases "map_of (classMap night) k") (simp_all add: themeOf_def startsWith_def)

lemma weather_class_added:
  assumes "startsWith c ''weather-''"
  shows "filter (\<lambda>cls. startsWith cls ''weather-'')
           (if c \<in> set (filter (\<lambda>cls. \<not> startsWith cls ''weather-'') xs)
            then filter (\<lambda>cls. \<not> startsWith cls ''weather-'') xs
            else filter (\<lambda>cls. \<not> startsWith cls ''weather-'') xs @ [c]) = [c]"
proof -
  have "filter (\<lambda>cls. startsWith cls ''weather-'')
      (filter (\<lambda>cls. \<not> startsWith cls ''weather-'') xs) = []"
    by (induction xs) auto
  then show ?thesis using assms by simp
qed

lemma nightIcon_eq:
  "(case icon of None \<Rightarrow> False | Some i \<Rightarrow> i \<noteq> [] \<and> endsWith i (js ''n'')) = nightIcon icon"
  by (auto simp add: nightIcon_def endsWith_def js_def split: option.splits)

text \<open>
  When the lower-cased condition names no property of \<open>Object.prototype\<close>, the call
  returns, and the page carries the theme of the table and the effect of the
  condition.
\<close>

lemma updateBackground_normal:
  assumes "toLowerCase condition \<notin> set objectPrototypeNames"
  shows "updateBackground toLowerCase condition icon pg =
     (None,
      pg\<lparr>bodyClasses :=
           (if themeOf (nightIcon icon) (toLowerCase condition)
                 \<in> set (filter (\<lambda>cls. \<not> startsWith cls ''weather-'') (bodyClasses pg))
            then filter (\<lambda>cls. \<not> startsWith cls ''weather-'') (bodyClasses pg)
            else filter (\<lambda>cls. \<not> startsWith cls ''weather-'') (bodyClasses pg) @
                 [themeOf (nightIcon icon) (toLowerCase condition)]),
         overlays :=
           (if toLowerCase condition \<in> set [js ''rain'', js ''drizzle'', js ''thunderstorm'']
            then [RainOverlay] else []) @
           (if toLowerCase condition = js ''snow'' then [SnowOverlay] else [])\<rparr>)"
proof (cases "map_of (classMap (nightIcon icon)) (toLowerCase condition)")
  case None
  then show ?thesis using assms
    by (simp add: updateBackground_def nightIcon_eq objectGet_def themeOf_def Let_def
        createRainEffect_def createSnowEffect_def)
next
  case (Some c)
  then show ?thesis using assms
    by (simp add: updateBackground_def nightIcon_eq objectGet_def themeOf_def Let_def
        createRainEffect_def createSnowEffect_def)
qed

lemma updateBackground_classifies:
  assumes "toLowerCase condition \<notin> set objectPrototypeNames"
  shows "fst (updateBackground toLowerCase condition icon pg) = None \<and>
     themeKey (snd (updateBackground toLowerCase condition icon pg)) =
       [themeOf (nightIcon icon) (toLowerCase condition)] \<and>
     particles (snd (updateBackground toLowerCase condition icon pg)) =
       Some (effectOf (toLowerCase condition))"
proof -
  note n = updateBackground_normal[of toLowerCase condition icon pg, OF assms]
  have snow: "js ''snow'' \<noteq> js ''rain''" "js ''snow'' \<noteq> js ''drizzle''"
    "js ''snow'' \<noteq> js ''thunderstorm''"
    by (simp_all add: js_def)
  have p: "particles (snd (updateBackground toLowerCase condition icon pg)) =
       Some (effectOf (toLowerCase condition))"
    using snow by (simp add: n particles_def effectOf_def)
  have t: "themeKey (snd (updateBackground toLowerCase condition icon pg)) =
       [themeOf (nightIcon icon) (toLowerCase condition)]"
    using weather_class_added[OF themeOf_weather, of "nightIcon icon" "toLowerCase condition"
        "bodyClasses pg"]
    by (simp add: n themeKey_def)
  show ?thesis using p t by (simp add: n)
qed

text \<open>
  When it names one, the call throws: the table has no such key, the inherited value
  is taken, and no theme is set.
\<close>

lemma updateBackground_inherited:
  assumes "toLowerCase condition \<in> set objectPrototypeNames"
  shows "fst (updateBackground toLowerCase condition icon pg) = Some InvalidCharacterError"
proof -
  have "map_of (classMap (nightIcon icon)) (toLowerCase condition) = None"
    using assms by (auto simp add: objectPrototypeNames_def classMap_def js_def)
  then show ?thesis
    using assms by (simp add: updateBackground_def nightIcon_eq objectGet_def Let_def)
qed

lemma themeOf_night_only_clear:
  "themeOf True k \<noteq> themeOf False k \<longleftrightarrow> k = js ''clear''"
  by (simp add: themeOf_def classMap_def js_def)

lemma themeOf_examples:
  "themeOf True (asciiLower (js ''Clear'')) = ''weather-clear-night''"
  "themeOf False (asciiLower (js ''Rain'')) = ''weather-rain''"
  "themeOf False (asciiLower (js ''Tornado'')) = ''weather-default''"
  by (simp_all add: themeOf_def classMap_def js_def asciiLower_def)

text \<open>
  Claim C8. Classification is to be total for every condition string, an unknown
  condition getting the default theme. The condition \<open>constructor\<close> is no key of the
  table, but \<open>classMap["constructor"]\<close> is the function every object inherits, which
  is truthy: the default is not taken, \<open>classList.add\<close> throws, and the page is left
  with no theme class and no overlay.
\<close>

theorem updateBackground_throws_on_constructor:
  "updateBackground asciiLower (js ''constructor'') (Some (js ''01d'')) pg =
     (Some InvalidCharacterError,
      pg\<lparr>bodyClasses := filter (\<lambda>cls. \<not> startsWith cls ''weather-'') (bodyClasses pg),
         overlays := []\<rparr>)"
  by (simp add: updateBackground_def asciiLower_def js_def objectGet_def classMap_def
      objectPrototypeNames_def endsWith_def)

section \<open>The recent cities: what the code does\<close>

lemma addRecentCity_adds:
  assumes "trim s \<noteq> []" and "writable st"
  shows "addRecentCity toLowerCase (JSString s) st =
     st\<lparr>stored := Cities (take MAX_CITIES
            (trim s # filter (\<lambda>c. toLowerCase c \<noteq> toLowerCase (trim s)) (getRecentCities st)))\<rparr>"
  using assms by (cases "s = []") (auto simp add: addRecentCity_def Let_def trim_def)

lemma addRecentCity_skips:
  assumes "\<forall>s. city = JSString s \<longrightarrow> trim s = []"
  shows "addRecentCity toLowerCase city st = st"
  using assms by (cases city) (auto simp add: addRecentCity_def)

lemma addRecentCity_readonly:
  "\<not> writable st \<Longrightarrow> addRecentCity toLowerCase city st = st"
  by (cases city) (auto simp add: addRecentCity_def Let_def)

text \<open>
  Claim C10. When the argument of \<open>addRecentCity\<close> is no string, or a string whose
  trimmed form is empty, the storage is left as it was.
\<close>

theorem addRecentCity_rejects:
  assumes "(\<forall>s. city \<noteq> JSString s) \<or> (\<exists>s. city = JSString s \<and> trim s = [])"
  shows "addRecentCity toLowerCase city st = st"
  using assms by (cases city) (auto simp add: addRecentCity_def)

theorem addRecentCity_rejects_witness:
  "trim (js ''   '') = [] \<and>
   addRecentCity asciiLower (JSString (js ''   '')) \<lparr>stored = Cities [js ''Rome''], writable = True\<rparr>
     = \<lparr>stored = Cities [js ''Rome''], writable = True\<rparr> \<and>
   addRecentCity asciiLower (JSNumber (Fin 5)) \<lparr>stored = Cities [js ''Rome''], writable = True\<rparr>
     = \<lparr>stored = Cities [js ''Rome''], writable = True\<rparr> \<and>
   addRecentCity asciiLower JSUndefined \<lparr>stored = Cities [js ''Rome''], writable = True\<rparr>
     = \<lparr>stored = Cities [js ''Rome''], writable = True\<rparr>"
proof -
  have blank: "trim (js ''   '') = []"
    by (simp add: trim_def js_def isWhiteSpace_def)
  show ?thesis
    using blank
      addRecentCity_rejects[of "JSString (js ''   '')" asciiLower
        "\<lparr>stored = Cities [js ''Rome''], writable = True\<rparr>"]
      addRecentCity_rejects[of "JSNumber (Fin 5)" asciiLower
        "\<lparr>stored = Cities [js ''Rome''], writable = True\<rparr>"]
      addRecentCity_rejects[of JSUndefined asciiLower
        "\<lparr>stored = Cities [js ''Rome''], writable = True\<rparr>"]
    by simp
qed

lemma getRecentCities_stored [simp]:
  "getRecentCities (st\<lparr>stored := Cities cs\<rparr>) = cs"
  by (simp add: getRecentCities_def)

lemma ciDistinct_add:
  assumes "ciDistinct toLowerCase cs"
  shows "ciDistinct toLowerCase
           (take n (t # filter (\<lambda>c. toLowerCase c \<noteq> toLowerCase t) cs))"
proof -
  have "distinct (map toLowerCase (t # filter (\<lambda>c. toLowerCase c \<noteq> toLowerCase t) cs))"
    using assms by (auto simp add: ciDistinct_def distinct_map_filter)
  then have "distinct (take n (map toLowerCase (t # filter (\<lambda>c. toLowerCase c \<noteq> toLowerCase t) cs)))"
    by (rule distinct_take)
  then show ?thesis
    by (simp only: ciDistinct_def take_map)
qed

text \<open>
  Claim C9, amended. On a stored list that has no two entries equal under
  case-insensitive comparison, every \<open>addRecentCity\<close> leaves a list with no two
  such entries, and a list of at most 5 entries when the stored one had at most 5.
  When it adds a city (a string with a non-empty trimmed form, the storage taking
  the write), the list has at most 5 entries on any such stored list, and the trimmed
  city is first. Adding Paris, paris and London to the empty storage gives London,
  paris.
\<close>

theorem addRecentCity_keeps_invariant:
  assumes "ciDistinct toLowerCase (getRecentCities st)"
  shows "ciDistinct toLowerCase (getRecentCities (addRecentCity toLowerCase city st)) \<and>
     (length (getRecentCities st) \<le> 5 \<longrightarrow>
        length (getRecentCities (addRecentCity toLowerCase city st)) \<le> 5) \<and>
     (\<forall>s. city = JSString s \<and> trim s \<noteq> [] \<and> writable st \<longrightarrow>
        length (getRecentCities (addRecentCity toLowerCase city st)) \<le> 5 \<and>
        (\<exists>rest. getRecentCities (addRecentCity toLowerCase city st) = trim s # rest))"
proof (cases "\<exists>s. city = JSString s \<and> trim s \<noteq> [] \<and> writable st")
  case True
  then obtain s where s: "city = JSString s" "trim s \<noteq> []" "writable st" by blast
  have eq: "getRecentCities (addRecentCity toLowerCase city st) =
      take MAX_CITIES (trim s # filter (\<lambda>c. toLowerCase c \<noteq> toLowerCase (trim s)) (getRecentCities st))"
    using s by (simp add: addRecentCity_adds)
  have d: "ciDistinct toLowerCase (getRecentCities (addRecentCity toLowerCase city st))"
    unfolding eq using assms by (rule ciDistinct_add)
  have l: "length (getRecentCities (addRecentCity toLowerCase city st)) \<le> 5"
    unfolding eq by (simp add: MAX_CITIES_def)
  have h: "\<exists>rest. getRecentCities (addRecentCity toLowerCase city st) = trim s # rest"
    unfolding eq by (simp add: MAX_CITIES_def take_Cons')
  show ?thesis using d l h s by auto
next
  case False
  then have "addRecentCity toLowerCase city st = st"
    using addRecentCity_skips[of city toLowerCase st] addRecentCity_readonly[of st toLowerCase city]
    by blast
  then show ?thesis using assms False by auto
qed

theorem addRecentCity_keeps_invariant_witness:
  "ciDistinct asciiLower
     (getRecentCities (addRecentCity asciiLower (JSString (js ''paris''))
        (addRecentCity asciiLower (JSString (js ''Paris'')) storage0))) \<and>
   getRecentCities (addRecentCity asciiLower (JSString (js ''London''))
     (addRecentCity asciiLower (JSString (js ''paris''))
        (addRecentCity asciiLower (JSString (js ''Paris'')) storage0)))
     = [js ''London'', js ''paris''] \<and>
   ciDistinct asciiLower [js ''London'', js ''paris'']"
proof -
  have st: "addRecentCity asciiLower (JSString (js ''paris''))
        (addRecentCity asciiLower (JSString (js ''Paris'')) storage0) =
        \<lparr>stored = Cities [js ''paris''], writable = True\<rparr>"
    by (simp add: addRecentCity_def storage0_def trim_def js_def isWhiteSpace_def asciiLower_def
        getRecentCities_def MAX_CITIES_def Let_def)
  have pre: "ciDistinct asciiLower (getRecentCities \<lparr>stored = Cities [js ''paris''], writable = True\<rparr>)"
    by (simp add: ciDistinct_def getRecentCities_def)
  have res: "getRecentCities (addRecentCity asciiLower (JSString (js ''London''))
       \<lparr>stored = Cities [js ''paris''], writable = True\<rparr>) = [js ''London'', js ''paris'']"
    by (simp add: addRecentCity_def trim_def js_def isWhiteSpace_def asciiLower_def
        getRecentCities_def MAX_CITIES_def Let_def)
  show ?thesis
    using addRecentCity_keeps_invariant[OF pre, of "JSString (js ''London'')"] pre
    by (simp add: st res)
qed

text \<open>
  The claim as stated, on any stored list, fails: the filter removes the entries equal
  to the new city only, so two stored entries equal to each other stay.
\<close>

theorem addRecentCity_duplicates_counterexample:
  "\<not> ciDistinct asciiLower
      (getRecentCities (addRecentCity asciiLower (JSString (js ''Paris''))
         \<lparr>stored = Cities [js ''Rome'', js ''rome''], writable = True\<rparr>))"
  by (simp add: addRecentCity_def trim_def js_def isWhiteSpace_def asciiLower_def
        getRecentCities_def MAX_CITIES_def Let_def ciDistinct_def)

section \<open>The forecast: what the code does\<close>

subsection \<open>Grouping by date\<close>

lemma splitOn_nonempty: "splitOn sep s \<noteq> []"
  by (induction s) (auto split: list.splits)

lemma set_firsts [simp]: "set (firsts xs) = set xs"
  by (induction xs) auto

lemma distinct_firsts [simp]: "distinct (firsts xs)"
  by (induction xs) auto

lemma firsts_snoc:
  "firsts (xs @ [x]) = (if x \<in> set xs then firsts xs else firsts xs @ [x])"
  by (induction xs) auto

lemma groupEntries_append:
  "groupEntries m (xs @ ys) =
     (case groupEntries m xs of Inl x \<Rightarrow> Inl x | Inr m' \<Rightarrow> groupEntries m' ys)"
  by (induction xs arbitrary: m) (auto split: sum.splits)

lemma map_of_grouped:
  "map_of (grouped xs) k = (if k \<in> set (map dateOf xs) then Some (dayGroup xs k) else None)"
  by (simp add: grouped_def map_of_map_restrict restrict_map_def)

lemma dayGroup_snoc:
  "dayGroup (xs @ [e]) k = dayGroup xs k @ (if dateOf e = k then [e] else [])"
  by (simp add: dayGroup_def)

lemma dayGroup_empty: "k \<notin> set (map dateOf xs) \<Longrightarrow> dayGroup xs k = []"
  by (auto simp add: dayGroup_def filter_empty_conv)

lemma grouped_snoc_old:
  assumes "dateOf e \<in> set (map dateOf xs)"
  shows "grouped (xs @ [e]) =
     map (\<lambda>(k, v). if k = dateOf e then (k, v @ [e]) else (k, v)) (grouped xs)"
  using assms by (auto simp add: grouped_def firsts_snoc dayGroup_snoc)

lemma grouped_snoc_new:
  assumes "dateOf e \<notin> set (map dateOf xs)"
  shows "grouped (xs @ [e]) = grouped xs @ [(dateOf e, [e])]"
  using assms by (auto simp add: grouped_def firsts_snoc dayGroup_snoc dayGroup_empty)

lemma groupStep_grouped:
  assumes "groupStep (grouped xs) e = Inr m"
  shows "m = grouped (xs @ [e])"
proof -
  from assms obtain t where t: "dt_txt e = Some t"
    by (cases "dt_txt e") (simp_all add: groupStep_def)
  then have k: "dateOf e = dateKeyOf t" by (simp add: dateOf_def)
  show ?thesis
  proof (cases "dateOf e \<in> set (map dateOf xs)")
    case True
    then have "objectGet (grouped xs) (dateKeyOf t) = Own (dayGroup xs (dateOf e))"
      using k by (simp add: objectGet_def map_of_grouped)
    then have "m = map (\<lambda>(k, v). if k = dateOf e then (k, v @ [e]) else (k, v)) (grouped xs)"
      using assms t k by (simp add: groupStep_def Let_def)
    then show ?thesis using grouped_snoc_old[OF True] by simp
  next
    case False
    then have "map_of (grouped xs) (dateKeyOf t) = None"
      using k by (simp add: map_of_grouped)
    then have "m = grouped xs @ [(dateOf e, [e])]"
      using assms t k by (auto simp add: groupStep_def objectGet_def Let_def split: if_splits)
    then show ?thesis using grouped_snoc_new[OF False] by simp
  qed
qed

lemma groupEntries_grouped:
  "groupEntries [] xs = Inr m \<Longrightarrow> m = grouped xs"
proof (induction xs arbitrary: m rule: rev_induct)
  case Nil
  then show ?case by (simp add: grouped_def)
next
  case (snoc e xs)
  from snoc.prems obtain m' where m': "groupEntries [] xs = Inr m'" and s: "groupStep m' e = Inr m"
    by (auto simp add: groupEntries_append split: sum.splits)
  from snoc.IH[OF m'] s show ?case using groupStep_grouped by blast
qed

lemma groupStep_groupable:
  assumes "groupable e"
  shows "\<exists>m'. groupStep (grouped xs) e = Inr m'"
proof -
  from assms obtain t where t: "dt_txt e = Some t" and p: "dateKeyOf t \<notin> set objectPrototypeNames"
    by (cases "dt_txt e") (auto simp add: groupable_def)
  show ?thesis
    using t p by (cases "map_of (grouped xs) (dateKeyOf t)") (simp_all add: groupStep_def objectGet_def Let_def)
qed

lemma groupEntries_total:
  "\<forall>e\<in>set xs. groupable e \<Longrightarrow> groupEntries [] xs = Inr (grouped xs)"
proof (induction xs rule: rev_induct)
  case Nil
  then show ?case by (simp add: grouped_def)
next
  case (snoc e xs)
  then have g: "groupEntries [] xs = Inr (grouped xs)" and e: "groupable e" by simp_all
  from groupStep_groupable[OF e, of xs] obtain m' where m': "groupStep (grouped xs) e = Inr m'"
    by blast
  then have "m' = grouped (xs @ [e])" by (rule groupStep_grouped)
  then show ?case using g m' by (simp add: groupEntries_append)
qed

lemma groupStep_TypeError: "groupStep m e = Inl x \<Longrightarrow> x = TypeError"
  by (auto simp add: groupStep_def Let_def split: option.splits property.splits)

lemma groupEntries_missing:
  "\<exists>e\<in>set xs. dt_txt e = None \<Longrightarrow> groupEntries m xs = Inl TypeError"
proof (induction xs arbitrary: m)
  case Nil
  then show ?case by simp
next
  case (Cons e xs)
  show ?case
  proof (cases "groupStep m e")
    case (Inl x)
    then show ?thesis using groupStep_TypeError[OF Inl] by simp
  next
    case (Inr m')
    then have "dt_txt e \<noteq> None" by (auto simp add: groupStep_def split: option.splits)
    then have "\<exists>e\<in>set xs. dt_txt e = None" using Cons.prems by auto
    then show ?thesis using Cons.IH Inr by simp
  qed
qed

text \<open>
  Timestamps of the provider's form \<open>YYYY-MM-DD HH:MM:SS\<close> are groupable, and their
  hour can be read.
\<close>

lemma splitOn_Cons_other:
  "c \<noteq> sep \<Longrightarrow> splitOn sep (c # cs) = (c # hd (splitOn sep cs)) # tl (splitOn sep cs)"
  using splitOn_nonempty[of sep cs] by (cases "splitOn sep cs") simp_all

lemma digit_not_space: "isDigit c \<Longrightarrow> c \<noteq> 0x20 \<and> c \<noteq> 0x2D"
  by (auto simp add: isDigit_def word_le_nat_alt)

lemma digit_not_initial:
  assumes "isDigit c"
  shows "c # cs \<notin> set objectPrototypeNames"
  using assms
  by (auto simp add: objectPrototypeNames_def js_def isDigit_def word_le_nat_alt)

lemma provider_timestamp_groupable:
  assumes "list_all isDigit [y1, y2, y3, y4, m1, m2, d1, d2]"
      and "dt_txt e = Some ([y1, y2, y3, y4, 0x2D, m1, m2, 0x2D, d1, d2, 0x20] @ time)"
  shows "groupable e \<and> dateOf e = [y1, y2, y3, y4, 0x2D, m1, m2, 0x2D, d1, d2]"
proof -
  define t where "t = [y1, y2, y3, y4, 0x2D, m1, m2, 0x2D, d1, d2, 0x20] @ time"
  define k where "k = [y1, y2, y3, y4, 0x2D, m1, m2, 0x2D, d1, d2]"
  have d: "y1 \<noteq> 0x20" "y2 \<noteq> 0x20" "y3 \<noteq> 0x20" "y4 \<noteq> 0x20" "m1 \<noteq> 0x20" "m2 \<noteq> 0x20"
    "d1 \<noteq> 0x20" "d2 \<noteq> 0x20"
    using assms(1) digit_not_space by simp_all
  have s: "splitOn 0x20 t = k # splitOn 0x20 time"
    using d by (simp add: t_def k_def)
  have dk: "dateKeyOf t = k"
    by (simp add: dateKeyOf_def s)
  have tm: "elemAt (splitOn 0x20 t) 1 \<noteq> None"
    using splitOn_nonempty[of "0x20" time] by (simp add: s elemAt_def)
  have p: "k \<notin> set objectPrototypeNames"
    unfolding k_def using assms(1) digit_not_initial by simp
  have i: "\<not> isArrayIndex k"
    by (simp add: k_def isArrayIndex_def isDigit_def)
  have e: "dt_txt e = Some t" using assms(2) by (simp add: t_def)
  have "groupable e" using tm p i by (simp add: groupable_def e dk)
  moreover have "dateOf e = k" by (simp add: dateOf_def e dk)
  ultimately show ?thesis by (simp add: k_def)
qed

lemma digit_not_colon: "isDigit c \<Longrightarrow> c \<noteq> 0x3A"
  by (auto simp add: isDigit_def word_le_nat_alt)

lemma provider_timestamp_hour:
  assumes "list_all isDigit [y1, y2, y3, y4, m1, m2, d1, d2, h1, h2]"
      and "dt_txt e =
             Some ([y1, y2, y3, y4, 0x2D, m1, m2, 0x2D, d1, d2, 0x20, h1, h2, 0x3A] @ rest)"
  shows "hourOfDay e = Some (digitsValue [h1, h2])"
proof -
  define t where
    "t = [y1, y2, y3, y4, 0x2D, m1, m2, 0x2D, d1, d2, 0x20, h1, h2, 0x3A] @ rest"
  define k where "k = [y1, y2, y3, y4, 0x2D, m1, m2, 0x2D, d1, d2]"
  define p where "p = hd (splitOn 0x20 rest)"
  have d: "y1 \<noteq> 0x20" "y2 \<noteq> 0x20" "y3 \<noteq> 0x20" "y4 \<noteq> 0x20" "m1 \<noteq> 0x20" "m2 \<noteq> 0x20"
    "d1 \<noteq> 0x20" "d2 \<noteq> 0x20" "h1 \<noteq> 0x20" "h2 \<noteq> 0x20"
    using assms(1) digit_not_space by simp_all
  have c: "h1 \<noteq> 0x3A" "h2 \<noteq> 0x3A" and h: "isDigit h1" "isDigit h2"
    using assms(1) digit_not_colon by simp_all
  have "splitOn 0x20 (h1 # h2 # 0x3A # rest) =
      (h1 # h2 # 0x3A # p) # tl (splitOn 0x20 rest)"
    using d(9,10) splitOn_nonempty[of "0x20" rest]
    by (cases "splitOn 0x20 rest") (simp_all add: p_def)
  then have s: "splitOn 0x20 t = k # (h1 # h2 # 0x3A # p) # tl (splitOn 0x20 rest)"
    using d by (simp add: t_def k_def)
  have tm: "elemAt (splitOn 0x20 t) (Suc 0) = Some (h1 # h2 # 0x3A # p)"
    by (simp add: s elemAt_def)
  have e: "dt_txt e = Some t" using assms(2) by (simp add: t_def)
  show ?thesis using h c by (simp add: hourOfDay_def e tm Let_def)
qed

subsection \<open>The loop over the days\<close>

lemma js_lt_trans: "js_lt a b \<Longrightarrow> js_lt b c \<Longrightarrow> js_lt a c"
  by (cases a; cases b; cases c) simp_all

lemma js_lt_irrefl: "\<not> js_lt a a"
  by (cases a) simp_all

lemma js_lt_total: "a \<noteq> NaN \<Longrightarrow> b \<noteq> NaN \<Longrightarrow> js_lt a b \<or> a = b \<or> js_lt b a"
  by (cases a; cases b) auto

lemma js_lt_NaN: "\<not> js_lt NaN a" "\<not> js_lt a NaN"
  by (cases a; simp)+

lemma processDays_spec:
  assumes "processDays today m acc keys = Inr ds"
  shows "\<exists>ds'. ds = acc @ ds' \<and>
     list_all2 (\<lambda>k d. \<exists>es. map_of m k = Some es \<and> daySummary es = Inr d)
       (take (5 - length acc) (filter (\<lambda>k. k \<noteq> today) keys)) ds'"
  using assms
proof (induction keys arbitrary: acc)
  case Nil
  then show ?case by simp
next
  case (Cons k keys)
  from Cons.prems obtain acc' where
    step: "dayStep today m acc k = Inr acc'" and rest: "processDays today m acc' keys = Inr ds"
    by (auto split: sum.splits)
  from Cons.IH[OF rest] obtain ds' where
    ds': "ds = acc' @ ds'"
      "list_all2 (\<lambda>k d. \<exists>es. map_of m k = Some es \<and> daySummary es = Inr d)
         (take (5 - length acc') (filter (\<lambda>k. k \<noteq> today) keys)) ds'"
    by blast
  show ?case
  proof (cases "k = today \<or> length acc \<ge> 5")
    case True
    then have "acc' = acc" using step by (auto simp add: dayStep_def split: if_splits)
    then show ?thesis using ds' True by auto
  next
    case False
    then obtain es d where es: "map_of m k = Some es" "daySummary es = Inr d" "acc' = acc @ [d]"
      using step
      by (auto simp add: dayStep_def objectGet_def split: option.splits sum.splits if_splits)
    have "take (5 - length acc) (filter (\<lambda>k. k \<noteq> today) (k # keys)) =
        k # take (5 - length acc') (filter (\<lambda>k. k \<noteq> today) keys)"
      using False es(3) by (simp add: take_Cons')
    then show ?thesis using ds' es by auto
  qed
qed

lemma processDays_total:
  assumes "\<forall>k\<in>set keys. \<exists>es d. map_of m k = Some es \<and> daySummary es = Inr d"
  shows "\<exists>ds. processDays today m acc keys = Inr ds"
  using assms
proof (induction keys arbitrary: acc)
  case Nil
  then show ?case by simp
next
  case (Cons k keys)
  then obtain es d where "map_of m k = Some es" "daySummary es = Inr d" by auto
  then have "\<exists>acc'. dayStep today m acc k = Inr acc'"
    by (simp add: dayStep_def objectGet_def)
  then obtain acc' where "dayStep today m acc k = Inr acc'" by blast
  then show ?case using Cons.IH[of acc'] Cons.prems by simp
qed

lemma findMidday_total:
  assumes "\<forall>e\<in>set es. \<exists>h. hourOf e = Inr h"
  shows "\<exists>m d. findMidday (m0, d0) es = Inr (m, d)"
  using assms
proof (induction es arbitrary: m0 d0)
  case Nil
  then show ?case by simp
next
  case (Cons e es)
  then obtain h where "hourOf e = Inr h" by auto
  then show ?case using Cons.IH Cons.prems by (simp add: Let_def)
qed

lemma daySummary_total:
  assumes "\<forall>e\<in>set es. \<exists>h. hourOf e = Inr h"
  shows "\<exists>d. daySummary es = Inr d"
proof -
  from findMidday_total[OF assms, of "hd es" PosInf] obtain m d where
    "findMidday (hd es, PosInf) es = Inr (m, d)" by blast
  then show ?thesis by (simp add: daySummary_def split: prod.splits)
qed

lemma groupable_hourOf: "groupable e \<Longrightarrow> \<exists>h. hourOf e = Inr h"
  by (auto simp add: groupable_def hourOf_def split: option.splits)

lemma groupable_dateOf:
  "groupable e \<Longrightarrow> \<not> isArrayIndex (dateOf e) \<and> dateOf e \<notin> set objectPrototypeNames"
  by (auto simp add: groupable_def dateOf_def split: option.splits)

lemma map_fst_grouped: "map fst (grouped xs) = firsts (map dateOf xs)"
  by (simp add: grouped_def comp_def)

lemma objectKeys_plain:
  assumes "\<forall>k\<in>set (map fst m). \<not> isArrayIndex k"
  shows "objectKeys m = map fst m"
proof -
  have "filter isArrayIndex (map fst m) = []"
    using assms by (simp add: filter_empty_conv)
  moreover have "filter (\<lambda>k. \<not> isArrayIndex k) (map fst m) = map fst m"
    using assms by (simp add: filter_id_conv)
  ultimately show ?thesis by (simp add: objectKeys_def)
qed

lemma objectKeys_grouped:
  assumes "\<forall>e\<in>set xs. groupable e"
  shows "objectKeys (grouped xs) = firsts (map dateOf xs)"
proof -
  have "\<forall>k\<in>set (map fst (grouped xs)). \<not> isArrayIndex k"
    using assms groupable_dateOf by (auto simp add: map_fst_grouped)
  then show ?thesis using objectKeys_plain map_fst_grouped by metis
qed

lemma set_objectKeys: "set (objectKeys m) = set (map fst m)"
  by (auto simp add: objectKeys_def)

subsection \<open>The two loops over a day's entries\<close>

lemma findMidday_spec:
  assumes "findMidday (m0, d0) es = Inr (m, d)"
      and "\<forall>e\<in>set es. diffOf e \<noteq> NaN"
      and "d0 \<noteq> NaN"
  shows "(m = m0 \<and> d = d0 \<and> (\<forall>e\<in>set es. \<not> js_lt (diffOf e) d0)) \<or>
         (\<exists>pre post. es = pre @ m # post \<and> d = diffOf m \<and> js_lt d d0 \<and>
            (\<forall>e\<in>set pre. js_lt d (diffOf e)) \<and> (\<forall>e\<in>set post. \<not> js_lt (diffOf e) d))"
  using assms
proof (induction es arbitrary: m0 d0)
  case Nil
  then show ?case by simp
next
  case (Cons e es)
  from Cons.prems(1) obtain hour where hour: "hourOf e = Inr hour"
    by (cases "hourOf e") simp_all
  then have diff: "diffOf e = math_abs (js_sub hour (Fin 12))"
    by (simp add: diffOf_def)
  have nn: "diffOf e \<noteq> NaN" and rest: "\<forall>e\<in>set es. diffOf e \<noteq> NaN"
    using Cons.prems(2) by simp_all
  show ?case
  proof (cases "js_lt (diffOf e) d0")
    case True
    then have run: "findMidday (e, diffOf e) es = Inr (m, d)"
      using Cons.prems(1) hour diff by (simp add: Let_def)
    from Cons.IH[OF run rest nn] show ?thesis
    proof
      assume a: "m = e \<and> d = diffOf e \<and> (\<forall>e'\<in>set es. \<not> js_lt (diffOf e') (diffOf e))"
      then have "e # es = [] @ m # es \<and> d = diffOf m \<and> js_lt d d0 \<and>
            (\<forall>e\<in>set []. js_lt d (diffOf e)) \<and> (\<forall>e\<in>set es. \<not> js_lt (diffOf e) d)"
        using True by simp
      then show ?thesis by blast
    next
      assume "\<exists>pre post. es = pre @ m # post \<and> d = diffOf m \<and> js_lt d (diffOf e) \<and>
            (\<forall>e\<in>set pre. js_lt d (diffOf e)) \<and> (\<forall>e\<in>set post. \<not> js_lt (diffOf e) d)"
      then obtain pre post where p: "es = pre @ m # post" "d = diffOf m" "js_lt d (diffOf e)"
            "\<forall>e\<in>set pre. js_lt d (diffOf e)" "\<forall>e\<in>set post. \<not> js_lt (diffOf e) d"
        by blast
      have "js_lt d d0" using p(3) True by (rule js_lt_trans)
      then have "e # es = (e # pre) @ m # post \<and> d = diffOf m \<and> js_lt d d0 \<and>
            (\<forall>e\<in>set (e # pre). js_lt d (diffOf e)) \<and> (\<forall>e\<in>set post. \<not> js_lt (diffOf e) d)"
        using p by simp
      then show ?thesis by blast
    qed
  next
    case False
    then have run: "findMidday (m0, d0) es = Inr (m, d)"
      using Cons.prems(1) hour diff by (simp add: Let_def)
    from Cons.IH[OF run rest Cons.prems(3)] show ?thesis
    proof
      assume "m = m0 \<and> d = d0 \<and> (\<forall>e\<in>set es. \<not> js_lt (diffOf e) d0)"
      then show ?thesis using False by simp
    next
      assume "\<exists>pre post. es = pre @ m # post \<and> d = diffOf m \<and> js_lt d d0 \<and>
            (\<forall>e\<in>set pre. js_lt d (diffOf e)) \<and> (\<forall>e\<in>set post. \<not> js_lt (diffOf e) d)"
      then obtain pre post where p: "es = pre @ m # post" "d = diffOf m" "js_lt d d0"
            "\<forall>e\<in>set pre. js_lt d (diffOf e)" "\<forall>e\<in>set post. \<not> js_lt (diffOf e) d"
        by blast
      have "js_lt d0 (diffOf e) \<or> d0 = diffOf e"
        using js_lt_total[OF Cons.prems(3) nn] False by blast
      then have "js_lt d (diffOf e)" using p(3) js_lt_trans by blast
      then have "e # es = (e # pre) @ m # post \<and> d = diffOf m \<and> js_lt d d0 \<and>
            (\<forall>e\<in>set (e # pre). js_lt d (diffOf e)) \<and> (\<forall>e\<in>set post. \<not> js_lt (diffOf e) d)"
        using p by simp
      then show ?thesis by blast
    qed
  qed
qed

lemma tempRange_spec:
  assumes "tempRange (a, b) es = (a', b')"
      and "\<forall>e\<in>set es. temp_min e \<noteq> NaN \<and> temp_max e \<noteq> NaN"
      and "a \<noteq> NaN" and "b \<noteq> NaN"
  shows "(a' = a \<or> (\<exists>e\<in>set es. a' = temp_min e)) \<and> \<not> js_lt a a' \<and>
         (\<forall>e\<in>set es. \<not> js_lt (temp_min e) a') \<and>
         (b' = b \<or> (\<exists>e\<in>set es. b' = temp_max e)) \<and> \<not> js_lt b' b \<and>
         (\<forall>e\<in>set es. \<not> js_lt b' (temp_max e))"
  using assms
proof (induction es arbitrary: a b)
  case Nil
  then show ?case by (simp add: js_lt_irrefl)
next
  case (Cons e es)
  define a1 where "a1 = (if js_lt (temp_min e) a then temp_min e else a)"
  define b1 where "b1 = (if js_gt (temp_max e) b then temp_max e else b)"
  have run: "tempRange (a1, b1) es = (a', b')"
    using Cons.prems(1) by (simp add: a1_def b1_def)
  have e: "temp_min e \<noteq> NaN" "temp_max e \<noteq> NaN" and rest: "\<forall>e\<in>set es. temp_min e \<noteq> NaN \<and> temp_max e \<noteq> NaN"
    using Cons.prems(2) by simp_all
  have a1n: "a1 \<noteq> NaN" and b1n: "b1 \<noteq> NaN"
    using e Cons.prems(3,4) by (simp_all add: a1_def b1_def)
  note ih = Cons.IH[OF run rest a1n b1n]
  have a1a: "a1 = a \<or> js_lt a1 a" and a1e: "a1 = temp_min e \<or> js_lt a1 (temp_min e)"
    using js_lt_total[OF e(1) Cons.prems(3)] by (auto simp add: a1_def)
  have b1b: "b1 = b \<or> js_lt b b1" and b1e: "b1 = temp_max e \<or> js_lt (temp_max e) b1"
    using js_lt_total[OF e(2) Cons.prems(4)] by (auto simp add: b1_def js_gt_def)
  have 1: "a' = a \<or> (\<exists>e\<in>set (e # es). a' = temp_min e)"
    using ih by (auto simp add: a1_def)
  have 2: "\<not> js_lt a a'" using ih a1a js_lt_trans by blast
  have 3: "\<forall>e\<in>set (e # es). \<not> js_lt (temp_min e) a'"
    using ih a1e js_lt_trans by auto
  have 4: "b' = b \<or> (\<exists>e\<in>set (e # es). b' = temp_max e)"
    using ih by (auto simp add: b1_def)
  have 5: "\<not> js_lt b' b" using ih b1b js_lt_trans by blast
  have 6: "\<forall>e\<in>set (e # es). \<not> js_lt b' (temp_max e)"
    using ih b1e js_lt_trans by auto
  show ?case using 1 2 3 4 5 6 by blast
qed

lemma digit_plain: "isDigit c \<Longrightarrow> \<not> isWhiteSpace c \<and> c \<noteq> 0x2D \<and> c \<noteq> 0x2B"
  by (auto simp add: isDigit_def isWhiteSpace_def word_le_nat_alt)

lemma parseInt_digits:
  assumes "s \<noteq> []" and "list_all isDigit s"
  shows "parseInt s = Fin (of_int (digitsValue s))"
proof -
  from assms obtain c cs where s: "s = c # cs" by (cases s) auto
  then have c: "isDigit c" using assms(2) by simp
  have t: "takeWhile isDigit s = s"
    using assms(2) by (simp add: takeWhile_eq_all_conv list_all_iff)
  have "parseDigits (c # cs) = Some (digitsValue s)"
    using t s by (simp add: parseDigits_def)
  then show ?thesis
    using s c digit_plain[OF c] by (simp add: parseInt_def)
qed

lemma hourOfDay_hourOf:
  assumes "hourOfDay e = Some h"
  shows "hourOf e = Inr (Fin (of_int h))"
  using assms
  by (auto simp add: hourOfDay_def hourOf_def Let_def parseInt_digits
      split: option.splits if_splits)

lemma hourOfDay_diffOf:
  assumes "hourOfDay e = Some h"
  shows "diffOf e = Fin (of_int (noonDistance e))"
  using hourOfDay_hourOf[OF assms] assms
  by (simp add: diffOf_def noonDistance_def)

lemma findMidday_mem:
  "findMidday (m0, d0) es = Inr (m, d) \<Longrightarrow> m = m0 \<or> m \<in> set es"
proof (induction es arbitrary: m0 d0)
  case Nil
  then show ?case by simp
next
  case (Cons e es)
  then show ?case
    by (cases "hourOf e") (auto simp add: Let_def split: if_splits)
qed

lemma daySummary_mem:
  assumes "daySummary es = Inr d" and "es \<noteq> []"
  shows "middayEntry d \<in> set es"
proof -
  from assms(1) obtain m md where f: "findMidday (hd es, PosInf) es = Inr (m, md)"
    and d: "middayEntry d = m"
    by (auto simp add: daySummary_def split: sum.splits prod.splits)
  from findMidday_mem[OF f] assms(2) d show ?thesis by auto
qed

lemma dayGroup_nonempty: "k \<in> set (map dateOf xs) \<Longrightarrow> dayGroup xs k \<noteq> []"
  by (auto simp add: dayGroup_def filter_empty_conv)

lemma dayGroup_date: "e \<in> set (dayGroup xs k) \<Longrightarrow> dateOf e = k"
  by (simp add: dayGroup_def)

lemma dailyForecastsOf_spec:
  assumes "dailyForecastsOf today xs = Inr ds"
  shows "list_all2 (\<lambda>k d. k \<in> set (map dateOf xs) \<and> daySummary (dayGroup xs k) = Inr d)
           (take 5 (filter (\<lambda>k. k \<noteq> today) (objectKeys (grouped xs)))) ds"
proof -
  from assms obtain m where m: "groupEntries [] xs = Inr m"
    and p: "processDays today m [] (objectKeys m) = Inr ds"
    by (auto simp add: dailyForecastsOf_def split: sum.splits)
  have g: "m = grouped xs" using m by (rule groupEntries_grouped)
  from processDays_spec[OF p] have
    "list_all2 (\<lambda>k d. \<exists>es. map_of m k = Some es \<and> daySummary es = Inr d)
       (take 5 (filter (\<lambda>k. k \<noteq> today) (objectKeys m))) ds"
    by simp
  then show ?thesis
    unfolding g
    by (rule list_all2_mono) (auto simp add: map_of_grouped split: if_splits)
qed

lemma dailyForecastsOf_total:
  assumes "\<forall>e\<in>set xs. groupable e"
  shows "\<exists>ds. dailyForecastsOf today xs = Inr ds"
proof -
  have g: "groupEntries [] xs = Inr (grouped xs)"
    using assms by (rule groupEntries_total)
  have "\<forall>k\<in>set (objectKeys (grouped xs)).
          \<exists>es d. map_of (grouped xs) k = Some es \<and> daySummary es = Inr d"
  proof
    fix k assume "k \<in> set (objectKeys (grouped xs))"
    then have k: "k \<in> set (map dateOf xs)"
      by (simp add: set_objectKeys map_fst_grouped)
    have "\<forall>e\<in>set (dayGroup xs k). \<exists>h. hourOf e = Inr h"
      using assms groupable_hourOf by (auto simp add: dayGroup_def)
    then obtain d where "daySummary (dayGroup xs k) = Inr d"
      using daySummary_total by blast
    then show "\<exists>es d. map_of (grouped xs) k = Some es \<and> daySummary es = Inr d"
      using k by (simp add: map_of_grouped)
  qed
  then obtain ds where "processDays today (grouped xs) [] (objectKeys (grouped xs)) = Inr ds"
    using processDays_total by blast
  then show ?thesis using g by (simp add: dailyForecastsOf_def)
qed

lemma day_of_result:
  assumes "dailyForecastsOf today xs = Inr ds" and "d \<in> set ds"
  shows "dateOf (middayEntry d) \<in> set (map dateOf xs) \<and> dateOf (middayEntry d) \<noteq> today \<and>
         daySummary (dayGroup xs (dateOf (middayEntry d))) = Inr d"
proof -
  from assms(2) obtain i where i: "i < length ds" "ds ! i = d"
    by (auto simp add: in_set_conv_nth)
  let ?ks = "take 5 (filter (\<lambda>k. k \<noteq> today) (objectKeys (grouped xs)))"
  note s = dailyForecastsOf_spec[OF assms(1)]
  then have l: "length ?ks = length ds" by (rule list_all2_lengthD)
  from list_all2_nthD2[OF s i(1)] i(2)
  have k: "?ks ! i \<in> set (map dateOf xs)" "daySummary (dayGroup xs (?ks ! i)) = Inr d"
    by simp_all
  have "i < length ?ks" using i l by simp
  then have "?ks ! i \<in> set ?ks" by (rule nth_mem)
  then have nt: "?ks ! i \<noteq> today" by (auto dest: in_set_takeD)
  have "middayEntry d \<in> set (dayGroup xs (?ks ! i))"
    using daySummary_mem[OF k(2)] dayGroup_nonempty[OF k(1)] by simp
  then have "dateOf (middayEntry d) = ?ks ! i" by (rule dayGroup_date)
  then show ?thesis using k nt by simp
qed

lemma dates_of_result:
  assumes "dailyForecastsOf today xs = Inr ds"
  shows "map (\<lambda>d. dateOf (middayEntry d)) ds =
     take 5 (filter (\<lambda>k. k \<noteq> today) (objectKeys (grouped xs)))"
proof -
  let ?ks = "take 5 (filter (\<lambda>k. k \<noteq> today) (objectKeys (grouped xs)))"
  note s = dailyForecastsOf_spec[OF assms(1)]
  then have l: "length ?ks = length ds" by (rule list_all2_lengthD)
  show ?thesis
  proof (rule nth_equalityI)
    show "length (map (\<lambda>d. dateOf (middayEntry d)) ds) = length ?ks" using l by simp
  next
    fix i assume "i < length (map (\<lambda>d. dateOf (middayEntry d)) ds)"
    then have i: "i < length ds" by simp
    from list_all2_nthD2[OF s i]
    have k: "?ks ! i \<in> set (map dateOf xs)" "daySummary (dayGroup xs (?ks ! i)) = Inr (ds ! i)"
      by simp_all
    have "middayEntry (ds ! i) \<in> set (dayGroup xs (?ks ! i))"
      using daySummary_mem[OF k(2)] dayGroup_nonempty[OF k(1)] by simp
    then have "dateOf (middayEntry (ds ! i)) = ?ks ! i" by (rule dayGroup_date)
    then show "map (\<lambda>d. dateOf (middayEntry d)) ds ! i = ?ks ! i" using i by simp
  qed
qed

lemma sorted_firsts: "sorted xs \<Longrightarrow> sorted (firsts xs)"
  by (induction xs) (auto intro: sorted_wrt_filter)

lemma length_future_dates:
  "length (filter (\<lambda>k. k \<noteq> today) (firsts ks)) = card (set ks - {today})"
proof -
  have "distinct (filter (\<lambda>k. k \<noteq> today) (firsts ks))" by simp
  then have "length (filter (\<lambda>k. k \<noteq> today) (firsts ks)) =
      card (set (filter (\<lambda>k. k \<noteq> today) (firsts ks)))"
    by (simp only: distinct_card)
  moreover have "set (filter (\<lambda>k. k \<noteq> today) (firsts ks)) = set ks - {today}" by auto
  ultimately show ?thesis by simp
qed

text \<open>
  Whatever the input, when the loops complete there are at most 5 days and none is
  dated today.
\<close>

lemma forecast_days_general:
  assumes "dailyForecastsOf today xs = Inr ds"
  shows "length ds \<le> 5 \<and> (\<forall>d\<in>set ds. dateOf (middayEntry d) \<noteq> today)"
proof -
  have "length ds = length (take 5 (filter (\<lambda>k. k \<noteq> today) (objectKeys (grouped xs))))"
    using dailyForecastsOf_spec[OF assms] by (simp only: list_all2_lengthD)
  then have "length ds \<le> 5" by simp
  then show ?thesis using day_of_result[OF assms] by blast
qed

subsection \<open>The week of the example\<close>

lemmas eval_defs = entry_def js_def dailyForecastsOf_def groupStep_def dateKeyOf_def objectGet_def
  objectPrototypeNames_def objectKeys_def isArrayIndex_def isDigit_def digitsValue_def
  dayStep_def daySummary_def hourOf_def elemAt_def parseInt_def parseDigits_def isWhiteSpace_def
  js_gt_def Let_def

lemma week_forecast: "dailyForecastsOf (js ''2024-01-01'') week = Inr weekForecast"
  by (simp add: week_def weekForecast_def eval_defs)

lemma week_groupable: "list_all groupable week"
  by (simp add: week_def entry_def groupable_def js_def elemAt_def dateKeyOf_def
      objectPrototypeNames_def isArrayIndex_def isDigit_def)

lemma week_dates:
  "map dateOf week =
     [js ''2024-01-01'', js ''2024-01-02'', js ''2024-01-02'', js ''2024-01-02'',
      js ''2024-01-03'', js ''2024-01-04'', js ''2024-01-05'', js ''2024-01-06'']"
  by (simp add: week_def entry_def dateOf_def js_def dateKeyOf_def)

lemma week_hours: "list_all (\<lambda>e. hourOfDay e \<noteq> None) week"
  by (simp add: week_def entry_def hourOfDay_def js_def elemAt_def isDigit_def Let_def)

lemma week_temps: "list_all (\<lambda>e. temp_min e \<noteq> NaN \<and> temp_max e \<noteq> NaN) week"
  by (simp add: week_def entry_def)

lemma grouped_member:
  assumes "groupEntries [] xs = Inr m" and "e \<in> set xs"
  shows "map_of m (dateOf e) = Some (dayGroup xs (dateOf e)) \<and> e \<in> set (dayGroup xs (dateOf e))"
  using groupEntries_grouped[OF assms(1)] assms(2)
  by (simp add: map_of_grouped dayGroup_def)

subsection \<open>The claims on the forecast\<close>

text \<open>
  Claim C1. When every sample has a groupable timestamp with an hour of one or two
  digits, \<open>renderForecast\<close> returns, and for every day it emits, the representative
  stands in the day's group (the samples of its date, in input order) at a place
  where every earlier sample of the group is strictly farther from 12:00 and no later
  sample is nearer: it has the smallest distance from 12:00, and of several such
  samples it is the first.
\<close>

theorem midday_closest_to_noon:
  assumes "\<forall>e\<in>set xs. groupable e" and "\<forall>e\<in>set xs. hourOfDay e \<noteq> None"
  shows "\<exists>ds. dailyForecastsOf today xs = Inr ds \<and>
     (\<forall>d\<in>set ds. \<exists>pre post.
        dayGroup xs (dateOf (middayEntry d)) = pre @ middayEntry d # post \<and>
        (\<forall>e\<in>set pre. noonDistance (middayEntry d) < noonDistance e) \<and>
        (\<forall>e\<in>set post. noonDistance (middayEntry d) \<le> noonDistance e))"
proof -
  obtain ds where ds: "dailyForecastsOf today xs = Inr ds"
    using dailyForecastsOf_total[OF assms(1)] by blast
  have diff: "diffOf e = Fin (of_int (noonDistance e))" if "e \<in> set xs" for e
    using assms(2) that hourOfDay_diffOf by auto
  have "\<exists>pre post.
        dayGroup xs (dateOf (middayEntry d)) = pre @ middayEntry d # post \<and>
        (\<forall>e\<in>set pre. noonDistance (middayEntry d) < noonDistance e) \<and>
        (\<forall>e\<in>set post. noonDistance (middayEntry d) \<le> noonDistance e)" if d: "d \<in> set ds" for d
  proof -
    define g where "g = dayGroup xs (dateOf (middayEntry d))"
    have sub: "set g \<subseteq> set xs" by (auto simp add: g_def dayGroup_def)
    from day_of_result[OF ds d] have k: "dateOf (middayEntry d) \<in> set (map dateOf xs)"
      and s: "daySummary g = Inr d" by (simp_all add: g_def)
    have ne: "g \<noteq> []" unfolding g_def using k by (rule dayGroup_nonempty)
    from s obtain md where f: "findMidday (hd g, PosInf) g = Inr (middayEntry d, md)"
      by (auto simp add: daySummary_def split: sum.splits prod.splits)
    have fin: "\<forall>e\<in>set g. diffOf e \<noteq> NaN" using diff sub by auto
    have "hd g \<in> set xs" using sub ne hd_in_set by blast
    then have "js_lt (diffOf (hd g)) PosInf" using diff[of "hd g"] by simp
    then have "\<not> (\<forall>e\<in>set g. \<not> js_lt (diffOf e) PosInf)" using ne hd_in_set by blast
    with findMidday_spec[OF f fin] obtain pre post where
      p: "g = pre @ middayEntry d # post" "md = diffOf (middayEntry d)"
         "\<forall>e\<in>set pre. js_lt md (diffOf e)" "\<forall>e\<in>set post. \<not> js_lt (diffOf e) md"
      by auto
    have m: "middayEntry d \<in> set xs" using p(1) sub by auto
    have "\<forall>e\<in>set pre. noonDistance (middayEntry d) < noonDistance e"
    proof
      fix e assume e: "e \<in> set pre"
      then have "e \<in> set xs" using p(1) sub by auto
      then show "noonDistance (middayEntry d) < noonDistance e"
        using p(2,3) e diff[OF m] diff[of e] by auto
    qed
    moreover have "\<forall>e\<in>set post. noonDistance (middayEntry d) \<le> noonDistance e"
    proof
      fix e assume e: "e \<in> set post"
      then have "e \<in> set xs" using p(1) sub by auto
      then show "noonDistance (middayEntry d) \<le> noonDistance e"
        using p(2,4) e diff[OF m] diff[of e] by auto
    qed
    ultimately show ?thesis using p(1) unfolding g_def by blast
  qed
  then show ?thesis using ds by blast
qed

theorem midday_closest_to_noon_witness:
  "list_all groupable week \<and> list_all (\<lambda>e. hourOfDay e \<noteq> None) week \<and>
   dailyForecastsOf (js ''2024-01-01'') week = Inr weekForecast \<and>
   list_all (\<lambda>d. \<exists>pre post.
        dayGroup week (dateOf (middayEntry d)) = pre @ middayEntry d # post \<and>
        list_all (\<lambda>e. noonDistance (middayEntry d) < noonDistance e) pre \<and>
        list_all (\<lambda>e. noonDistance (middayEntry d) \<le> noonDistance e) post) weekForecast \<and>
   middayEntry (hd weekForecast) = entry ''2024-01-02 12:00:00'' 8 22"
proof -
  have g: "\<forall>e\<in>set week. groupable e"
    using week_groupable by (simp add: list_all_iff)
  have h: "\<forall>e\<in>set week. hourOfDay e \<noteq> None"
    using week_hours by (simp add: list_all_iff)
  have "list_all (\<lambda>d. \<exists>pre post.
        dayGroup week (dateOf (middayEntry d)) = pre @ middayEntry d # post \<and>
        list_all (\<lambda>e. noonDistance (middayEntry d) < noonDistance e) pre \<and>
        list_all (\<lambda>e. noonDistance (middayEntry d) \<le> noonDistance e) post) weekForecast"
    using midday_closest_to_noon[OF g h, of "js ''2024-01-01''"]
    by (simp add: week_forecast list_all_iff)
  moreover have "middayEntry (hd weekForecast) = entry ''2024-01-02 12:00:00'' 8 22"
    by (simp add: weekForecast_def)
  ultimately show ?thesis using week_groupable week_hours week_forecast by (intro conjI)
qed

text \<open>
  Claim C2. When every sample has a groupable timestamp and no temperature bound is
  NaN, \<open>renderForecast\<close> returns, and for every day it emits, \<open>tempMin\<close> is the
  \<open>temp_min\<close> of a sample of the day's group and no sample of the group has a smaller
  one, and \<open>tempMax\<close> is the \<open>temp_max\<close> of a sample of the group and no sample has
  a greater one, whichever sample is the representative; for a group of one sample
  they are that sample's bounds.
\<close>

theorem daily_extremes:
  assumes "\<forall>e\<in>set xs. groupable e"
      and "\<forall>e\<in>set xs. temp_min e \<noteq> NaN \<and> temp_max e \<noteq> NaN"
  shows "\<exists>ds. dailyForecastsOf today xs = Inr ds \<and>
     (\<forall>d\<in>set ds.
        (\<exists>e\<in>set (dayGroup xs (dateOf (middayEntry d))). tempMin d = temp_min e) \<and>
        (\<forall>e\<in>set (dayGroup xs (dateOf (middayEntry d))). \<not> js_lt (temp_min e) (tempMin d)) \<and>
        (\<exists>e\<in>set (dayGroup xs (dateOf (middayEntry d))). tempMax d = temp_max e) \<and>
        (\<forall>e\<in>set (dayGroup xs (dateOf (middayEntry d))). \<not> js_gt (temp_max e) (tempMax d)) \<and>
        (\<forall>e. dayGroup xs (dateOf (middayEntry d)) = [e] \<longrightarrow>
             tempMin d = temp_min e \<and> tempMax d = temp_max e))"
proof -
  obtain ds where ds: "dailyForecastsOf today xs = Inr ds"
    using dailyForecastsOf_total[OF assms(1)] by blast
  have "(\<exists>e\<in>set (dayGroup xs (dateOf (middayEntry d))). tempMin d = temp_min e) \<and>
        (\<forall>e\<in>set (dayGroup xs (dateOf (middayEntry d))). \<not> js_lt (temp_min e) (tempMin d)) \<and>
        (\<exists>e\<in>set (dayGroup xs (dateOf (middayEntry d))). tempMax d = temp_max e) \<and>
        (\<forall>e\<in>set (dayGroup xs (dateOf (middayEntry d))). \<not> js_gt (temp_max e) (tempMax d)) \<and>
        (\<forall>e. dayGroup xs (dateOf (middayEntry d)) = [e] \<longrightarrow>
             tempMin d = temp_min e \<and> tempMax d = temp_max e)" if d: "d \<in> set ds" for d
  proof -
    define g where "g = dayGroup xs (dateOf (middayEntry d))"
    have sub: "set g \<subseteq> set xs" by (auto simp add: g_def dayGroup_def)
    from day_of_result[OF ds d] have k: "dateOf (middayEntry d) \<in> set (map dateOf xs)"
      and s: "daySummary g = Inr d" by (simp_all add: g_def)
    have ne: "g \<noteq> []" unfolding g_def using k by (rule dayGroup_nonempty)
    from s have t: "tempRange (PosInf, NegInf) g = (tempMin d, tempMax d)"
      by (auto simp add: daySummary_def split: sum.splits prod.splits)
    have nn: "\<forall>e\<in>set g. temp_min e \<noteq> NaN \<and> temp_max e \<noteq> NaN" using assms(2) sub by auto
    from tempRange_spec[OF t nn] have r:
      "tempMin d = PosInf \<or> (\<exists>e\<in>set g. tempMin d = temp_min e)"
      "\<forall>e\<in>set g. \<not> js_lt (temp_min e) (tempMin d)"
      "tempMax d = NegInf \<or> (\<exists>e\<in>set g. tempMax d = temp_max e)"
      "\<forall>e\<in>set g. \<not> js_lt (tempMax d) (temp_max e)"
      by simp_all
    obtain e0 where e0: "e0 \<in> set g" using ne by (cases g) auto
    have lo: "\<exists>e\<in>set g. tempMin d = temp_min e"
    proof (cases "tempMin d = PosInf")
      case True
      then have "\<not> js_lt (temp_min e0) PosInf" using r(2) e0 by auto
      moreover have "temp_min e0 \<noteq> NaN" using nn e0 by auto
      ultimately have "temp_min e0 = PosInf" by (cases "temp_min e0") simp_all
      then have "tempMin d = temp_min e0" using True by simp
      then show ?thesis using e0 by blast
    next
      case False
      then show ?thesis using r(1) by simp
    qed
    have hi: "\<exists>e\<in>set g. tempMax d = temp_max e"
    proof (cases "tempMax d = NegInf")
      case True
      then have "\<not> js_lt NegInf (temp_max e0)" using r(4) e0 by auto
      moreover have "temp_max e0 \<noteq> NaN" using nn e0 by auto
      ultimately have "temp_max e0 = NegInf" by (cases "temp_max e0") simp_all
      then have "tempMax d = temp_max e0" using True by simp
      then show ?thesis using e0 by blast
    next
      case False
      then show ?thesis using r(3) by simp
    qed
    have single: "\<forall>e. g = [e] \<longrightarrow> tempMin d = temp_min e \<and> tempMax d = temp_max e"
      using lo hi by auto
    show ?thesis using lo hi r(2,4) single unfolding g_def js_gt_def by blast
  qed
  then show ?thesis using ds by blast
qed

theorem daily_extremes_witness:
  "list_all groupable week \<and>
   list_all (\<lambda>e. temp_min e \<noteq> NaN \<and> temp_max e \<noteq> NaN) week \<and>
   dailyForecastsOf (js ''2024-01-01'') week = Inr weekForecast \<and>
   list_all (\<lambda>d.
        list_ex (\<lambda>e. tempMin d = temp_min e) (dayGroup week (dateOf (middayEntry d))) \<and>
        list_all (\<lambda>e. \<not> js_lt (temp_min e) (tempMin d)) (dayGroup week (dateOf (middayEntry d))) \<and>
        list_ex (\<lambda>e. tempMax d = temp_max e) (dayGroup week (dateOf (middayEntry d))) \<and>
        list_all (\<lambda>e. \<not> js_gt (temp_max e) (tempMax d)) (dayGroup week (dateOf (middayEntry d))))
     weekForecast \<and>
   tempMin (hd weekForecast) = Fin 8 \<and> tempMax (hd weekForecast) = Fin 22"
proof -
  have g: "\<forall>e\<in>set week. groupable e"
    using week_groupable by (simp add: list_all_iff)
  have h: "\<forall>e\<in>set week. temp_min e \<noteq> NaN \<and> temp_max e \<noteq> NaN"
    using week_temps by (simp add: list_all_iff)
  have "list_all (\<lambda>d.
        list_ex (\<lambda>e. tempMin d = temp_min e) (dayGroup week (dateOf (middayEntry d))) \<and>
        list_all (\<lambda>e. \<not> js_lt (temp_min e) (tempMin d)) (dayGroup week (dateOf (middayEntry d))) \<and>
        list_ex (\<lambda>e. tempMax d = temp_max e) (dayGroup week (dateOf (middayEntry d))) \<and>
        list_all (\<lambda>e. \<not> js_gt (temp_max e) (tempMax d)) (dayGroup week (dateOf (middayEntry d))))
     weekForecast"
    using daily_extremes[OF g h, of "js ''2024-01-01''"]
    by (simp add: week_forecast list_all_iff list_ex_iff)
  moreover have "tempMin (hd weekForecast) = Fin 8"
    by (simp add: weekForecast_def)
  moreover have "tempMax (hd weekForecast) = Fin 22"
    by (simp add: weekForecast_def)
  ultimately show ?thesis using week_groupable week_temps week_forecast by (intro conjI)
qed

text \<open>
  Claim C3, amended. When every sample has a groupable timestamp,
  \<open>renderForecast\<close> returns; the dates of the days it emits are the first five dates
  other than today's, in the order in which the dates first occur in the input. So no
  day is dated today, there are at most 5 days, exactly as many as there are dates
  other than today's when these are fewer than 5 (and exactly 5 for today and five
  more days), and the days are in chronological order when the input samples are.
  Dates are compared as texts, which is the order of the calendar on dates of the
  form \<open>YYYY-MM-DD\<close>.
\<close>

theorem forecast_days:
  assumes "\<forall>e\<in>set xs. groupable e"
  shows "\<exists>ds. dailyForecastsOf today xs = Inr ds \<and>
     map (\<lambda>d. dateOf (middayEntry d)) ds =
       take 5 (filter (\<lambda>k. k \<noteq> today) (firsts (map dateOf xs))) \<and>
     (\<forall>d\<in>set ds. dateOf (middayEntry d) \<noteq> today) \<and>
     length ds \<le> 5 \<and>
     length ds = min 5 (card (set (map dateOf xs) - {today})) \<and>
     (sorted (map dateOf xs) \<longrightarrow> sorted_wrt (<) (map (\<lambda>d. dateOf (middayEntry d)) ds))"
proof -
  obtain ds where ds: "dailyForecastsOf today xs = Inr ds"
    using dailyForecastsOf_total[OF assms] by blast
  let ?dates = "map (\<lambda>d. dateOf (middayEntry d)) ds"
  have dates: "?dates = take 5 (filter (\<lambda>k. k \<noteq> today) (firsts (map dateOf xs)))"
    using dates_of_result[OF ds] objectKeys_grouped[OF assms] by simp
  have nt: "\<forall>d\<in>set ds. dateOf (middayEntry d) \<noteq> today"
    using day_of_result[OF ds] by blast
  have "length ?dates = min 5 (card (set (map dateOf xs) - {today}))"
    unfolding dates by (simp add: length_future_dates min.commute)
  then have len: "length ds = min 5 (card (set (map dateOf xs) - {today}))" by simp
  have srt: "sorted_wrt (<) ?dates" if "sorted (map dateOf xs)"
  proof -
    have "sorted (firsts (map dateOf xs))" using that by (rule sorted_firsts)
    then have "sorted_wrt (<) (firsts (map dateOf xs))"
      by (simp add: strict_sorted_iff)
    then have "sorted_wrt (<) (filter (\<lambda>k. k \<noteq> today) (firsts (map dateOf xs)))"
      by (rule sorted_wrt_filter)
    then show ?thesis unfolding dates by (rule sorted_wrt_take)
  qed
  show ?thesis using ds dates nt len srt by auto
qed

theorem forecast_days_witness:
  "list_all groupable week \<and> sorted (map dateOf week) \<and>
   (\<exists>ds. dailyForecastsOf (js ''2024-01-01'') week = Inr ds \<and>
      map (\<lambda>d. dateOf (middayEntry d)) ds =
        [js ''2024-01-02'', js ''2024-01-03'', js ''2024-01-04'', js ''2024-01-05'',
         js ''2024-01-06''] \<and>
      length ds = 5 \<and>
      sorted_wrt (<) (map (\<lambda>d. dateOf (middayEntry d)) ds))"
proof -
  have g: "\<forall>e\<in>set week. groupable e"
    using week_groupable by (simp add: list_all_iff)
  have s: "sorted (map dateOf week)"
    by (simp add: week_dates js_def)
  have t: "take 5 (filter (\<lambda>k. k \<noteq> js ''2024-01-01'') (firsts (map dateOf week))) =
      [js ''2024-01-02'', js ''2024-01-03'', js ''2024-01-04'', js ''2024-01-05'',
       js ''2024-01-06'']"
    by (simp add: week_dates js_def)
  from forecast_days[OF g, of "js ''2024-01-01''"] obtain ds where
    ds: "dailyForecastsOf (js ''2024-01-01'') week = Inr ds"
      "map (\<lambda>d. dateOf (middayEntry d)) ds =
         take 5 (filter (\<lambda>k. k \<noteq> js ''2024-01-01'') (firsts (map dateOf week)))"
      "sorted (map dateOf week) \<longrightarrow> sorted_wrt (<) (map (\<lambda>d. dateOf (middayEntry d)) ds)"
    by blast
  have d2: "map (\<lambda>d. dateOf (middayEntry d)) ds =
      [js ''2024-01-02'', js ''2024-01-03'', js ''2024-01-04'', js ''2024-01-05'',
       js ''2024-01-06'']"
    using ds(2) t by simp
  have "length (map (\<lambda>d. dateOf (middayEntry d)) ds) = 5"
    unfolding d2 by simp
  then have l: "length ds = 5" by simp
  have d3: "sorted_wrt (<) (map (\<lambda>d. dateOf (middayEntry d)) ds)"
    using ds(3) s by (rule mp)
  have "\<exists>ds. dailyForecastsOf (js ''2024-01-01'') week = Inr ds \<and>
      map (\<lambda>d. dateOf (middayEntry d)) ds =
        [js ''2024-01-02'', js ''2024-01-03'', js ''2024-01-04'', js ''2024-01-05'',
         js ''2024-01-06''] \<and>
      length ds = 5 \<and>
      sorted_wrt (<) (map (\<lambda>d. dateOf (middayEntry d)) ds)"
  proof (intro exI conjI)
    show "dailyForecastsOf (js ''2024-01-01'') week = Inr ds" by (rule ds(1))
    show "map (\<lambda>d. dateOf (middayEntry d)) ds =
        [js ''2024-01-02'', js ''2024-01-03'', js ''2024-01-04'', js ''2024-01-05'',
         js ''2024-01-06'']" by (rule d2)
    show "length ds = 5" by (rule l)
    show "sorted_wrt (<) (map (\<lambda>d. dateOf (middayEntry d)) ds)" by (rule d3)
  qed
  with week_groupable s show ?thesis by (intro conjI)
qed

text \<open>
  The claim as stated, for every input sequence, fails: the code never sorts, so
  samples that arrive out of order give days out of order.
\<close>

theorem forecast_order_counterexample:
  "dailyForecastsOf (js ''2024-01-01'')
     [entry ''2024-01-03 12:00:00'' 3 9, entry ''2024-01-02 12:00:00'' 8 22] =
     Inr [\<lparr>middayEntry = entry ''2024-01-03 12:00:00'' 3 9, tempMin = Fin 3, tempMax = Fin 9\<rparr>,
          \<lparr>middayEntry = entry ''2024-01-02 12:00:00'' 8 22, tempMin = Fin 8, tempMax = Fin 22\<rparr>] \<and>
   js ''2024-01-02'' < js ''2024-01-03''"
  by (simp add: eval_defs)

text \<open>
  Claim C6, amended. When some sample has no timestamp, the aggregation aborts with
  a \<open>TypeError\<close> and no day is rendered: the forecast container is left empty.
  No sample with a timestamp is excluded from grouping: whenever the grouping loop
  completes, every sample is in the group kept under the text before the first space
  of its timestamp.
\<close>

theorem missing_timestamp_aborts:
  "((\<exists>e\<in>set xs. dt_txt e = None) \<longrightarrow>
      dailyForecastsOf today xs = Inl TypeError \<and>
      renderForecast today xs pg = (Some TypeError, pg\<lparr>forecastCards := []\<rparr>)) \<and>
   (\<forall>m. groupEntries [] xs = Inr m \<longrightarrow>
      (\<forall>e\<in>set xs. map_of m (dateOf e) = Some (dayGroup xs (dateOf e)) \<and>
                   e \<in> set (dayGroup xs (dateOf e))))"
proof -
  have "dailyForecastsOf today xs = Inl TypeError \<and>
      renderForecast today xs pg = (Some TypeError, pg\<lparr>forecastCards := []\<rparr>)"
    if "\<exists>e\<in>set xs. dt_txt e = None"
  proof -
    have "dailyForecastsOf today xs = Inl TypeError"
      using groupEntries_missing[OF that, of "[]"] by (simp add: dailyForecastsOf_def)
    then show ?thesis by (simp add: renderForecast_def)
  qed
  then show ?thesis using grouped_member by blast
qed

theorem missing_timestamp_aborts_witness:
  "dt_txt noTimestamp = None \<and>
   dailyForecastsOf (js ''2024-01-01'') (week @ [noTimestamp]) = Inl TypeError \<and>
   renderForecast (js ''2024-01-01'') (week @ [noTimestamp]) (page0\<lparr>forecastCards := weekForecast\<rparr>) =
     (Some TypeError, page0\<lparr>forecastCards := []\<rparr>) \<and>
   groupEntries [] week = Inr (grouped week) \<and>
   list_all (\<lambda>e. map_of (grouped week) (dateOf e) = Some (dayGroup week (dateOf e)) \<and>
                 e \<in> set (dayGroup week (dateOf e))) week"
proof -
  have n: "dt_txt noTimestamp = None" by (simp add: noTimestamp_def)
  then have ex: "\<exists>e\<in>set (week @ [noTimestamp]). dt_txt e = None" by simp
  have g: "groupEntries [] week = Inr (grouped week)"
    using week_groupable by (simp add: groupEntries_total list_all_iff)
  note t = missing_timestamp_aborts[of "week @ [noTimestamp]" "js ''2024-01-01''"
      "page0\<lparr>forecastCards := weekForecast\<rparr>"]
  note u = missing_timestamp_aborts[of week "js ''2024-01-01''" page0]
  have a: "dailyForecastsOf (js ''2024-01-01'') (week @ [noTimestamp]) = Inl TypeError"
    using t ex by blast
  have "renderForecast (js ''2024-01-01'') (week @ [noTimestamp]) (page0\<lparr>forecastCards := weekForecast\<rparr>) =
     (Some TypeError, page0\<lparr>forecastCards := weekForecast, forecastCards := []\<rparr>)"
    using t ex by blast
  then have b: "renderForecast (js ''2024-01-01'') (week @ [noTimestamp]) (page0\<lparr>forecastCards := weekForecast\<rparr>) =
     (Some TypeError, page0\<lparr>forecastCards := []\<rparr>)"
    by simp
  have c: "list_all (\<lambda>e. map_of (grouped week) (dateOf e) = Some (dayGroup week (dateOf e)) \<and>
                 e \<in> set (dayGroup week (dateOf e))) week"
    using u g by (simp add: list_all_iff)
  show ?thesis using n a b g c by (intro conjI)
qed

text \<open>
  The claim as stated fails: with one sample without timestamp, or with a timestamp
  that has no time part, the days of the other samples are not produced.
\<close>

theorem missing_timestamp_counterexample:
  "dailyForecastsOf (js ''2024-01-01'')
     [entry ''2024-01-02 12:00:00'' 8 22, noTimestamp] = Inl TypeError \<and>
   dailyForecastsOf (js ''2024-01-01'')
     [entry ''2024-01-02 12:00:00'' 8 22, entry ''soon'' 1 2] = Inl TypeError \<and>
   dailyForecastsOf (js ''2024-01-01'') [entry ''2024-01-02 12:00:00'' 8 22] =
     Inr [\<lparr>middayEntry = entry ''2024-01-02 12:00:00'' 8 22, tempMin = Fin 8, tempMax = Fin 22\<rparr>]"
  by (simp add: eval_defs noTimestamp_def)

section \<open>The lookup: what the code does\<close>

lemma promiseAll_rejects:
  assumes "isl (currentResult env) \<or> isl (forecastResult env)"
  shows "\<exists>x. promiseAll env = Inl x"
  using assms by (cases "currentResult env"; cases "forecastResult env") (simp_all add: promiseAll_def)

lemma promiseAll_reason:
  assumes "promiseAll env = Inl x"
  shows "(currentResult env = Inl e1 \<and> (\<not> isl (forecastResult env) \<or> \<not> forecastRejectsFirst env)
            \<longrightarrow> x = e1) \<and>
         (forecastResult env = Inl e2 \<and> (\<not> isl (currentResult env) \<or> forecastRejectsFirst env)
            \<longrightarrow> x = e2)"
  using assms
  by (cases "currentResult env"; cases "forecastResult env") (auto simp add: promiseAll_def)

lemma searchByCity_rejected:
  assumes "valid (validateCityInput city)" and "promiseAll env = Inl x"
  shows "searchByCity toLowerCase env city a =
     a\<lparr>dom := (dom a)\<lparr>toasts := toasts (dom a) @ [errorMessage x], loadingHidden := True\<rparr>\<rparr>"
  using assms
  by (simp add: searchByCity_def searchByCity_try_def Let_def showLoading_def showError_def
      hideLoading_def)

text \<open>
  Claim C4, amended. For every lookup that passes validation, if either retrieval
  fails, the lookup fails with exactly one reported error and nothing else changes on
  the page or in the storage (the loading overlay is hidden again): neither current
  conditions nor a forecast card is rendered. The reported error is the one of the
  retrieval that is seen to fail first: the current-conditions error when the
  forecast succeeds or fails later, the forecast error when the current conditions
  succeed or fail later.
\<close>

theorem searchByCity_failure:
  assumes "valid (validateCityInput city)"
      and "isl (currentResult env) \<or> isl (forecastResult env)"
  shows "\<exists>x. searchByCity toLowerCase env city a =
           a\<lparr>dom := (dom a)\<lparr>toasts := toasts (dom a) @ [errorMessage x],
                              loadingHidden := True\<rparr>\<rparr> \<and>
         (\<forall>e1. currentResult env = Inl e1 \<and>
                (\<not> isl (forecastResult env) \<or> \<not> forecastRejectsFirst env) \<longrightarrow> x = e1) \<and>
         (\<forall>e2. forecastResult env = Inl e2 \<and>
                (\<not> isl (currentResult env) \<or> forecastRejectsFirst env) \<longrightarrow> x = e2)"
proof -
  obtain x where x: "promiseAll env = Inl x"
    using promiseAll_rejects[OF assms(2)] by blast
  show ?thesis
    using searchByCity_rejected[OF assms(1) x, of toLowerCase a] promiseAll_reason[OF x]
    by blast
qed

lemma valid_Paris: "valid (validateCityInput (js ''Paris''))"
  by (simp add: validateCityInput_def trim_def isWhiteSpace_def validPattern_test_def
      inClass_def js_def)

text \<open>
  The claim as stated gives the current-conditions error precedence. When both
  retrievals fail and the forecast's rejection comes first, \<open>Promise.all\<close> rejects
  with the forecast's error, and that is the one reported.
\<close>

theorem searchByCity_precedence_counterexample:
  "toasts (dom (searchByCity asciiLower env1 (js ''Paris'') app0)) =
     [Message ''Too many requests. Please wait a moment and try again.''] \<and>
   toasts (dom (searchByCity asciiLower env1 (js ''Paris'') app0)) \<noteq>
     [Message ''Network error. Please check your internet connection.'']"
proof -
  have p: "promiseAll env1 =
      Inl (Error ''Too many requests. Please wait a moment and try again.'')"
    by (simp add: promiseAll_def env1_def)
  show ?thesis
    by (simp add: searchByCity_rejected[OF valid_Paris p] errorMessage_def app0_def page0_def)
qed

theorem searchByCity_failure_witness:
  "valid (validateCityInput (js ''Paris'')) \<and>
   isl (currentResult (env1\<lparr>forecastRejectsFirst := False\<rparr>)) \<and>
   searchByCity asciiLower (env1\<lparr>forecastRejectsFirst := False\<rparr>) (js ''Paris'') app0 =
     app0\<lparr>dom := page0\<lparr>toasts := [Message ''Network error. Please check your internet connection.''],
                        loadingHidden := True\<rparr>\<rparr>"
  using searchByCity_failure[of "js ''Paris''" "env1\<lparr>forecastRejectsFirst := False\<rparr>" asciiLower app0] valid_Paris
  by (auto simp add: env1_def app0_def page0_def errorMessage_def)

end
